theory Spec2Isabelle
  imports Complex_Main "HOL-Library.Word"
begin

section \<open>JavaScript strings\<close>

text \<open>
  A JavaScript string is a sequence of 16-bit code units. String literals of the source
  are ASCII; \<open>js\<close> turns an Isabelle literal into its code units.
\<close>

type_synonym jschar = "16 word"
type_synonym jsstring = "jschar list"

definition js :: "string \<Rightarrow> jsstring" where
  "js s = map (\<lambda>c. of_nat (of_char c)) s"

text \<open>
  \<open>String.prototype.trim\<close> removes WhiteSpace and LineTerminator code points from both
  ends: TAB, LF, VT, FF, CR, SP, NBSP, U+1680, U+2000..U+200A, U+2028, U+2029,
  U+202F, U+205F, U+3000 and U+FEFF.
\<close>

definition is_js_space :: "jschar \<Rightarrow> bool" where
  "is_js_space c \<longleftrightarrow>
     c \<in> {0x09, 0x0A, 0x0B, 0x0C, 0x0D, 0x20, 0xA0, 0x1680, 0x2028, 0x2029, 0x202F,
          0x205F, 0x3000, 0xFEFF} \<or> (0x2000 \<le> c \<and> c \<le> 0x200A)"

definition trim :: "jsstring \<Rightarrow> jsstring" where
  "trim s = rev (dropWhile is_js_space (rev (dropWhile is_js_space s)))"

section \<open>JavaScript values and JSON\<close>

text \<open>
  The values \<^verbatim>\<open>JSON.parse\<close> returns and \<^verbatim>\<open>JSON.stringify\<close> takes. \<open>Undefined\<close> is the
  value of a missing property. A number is \<open>JNum i\<close> when it is an integer that a double
  holds exactly (\<open>\<bar>i\<bar> \<le> 2\<^sup>5\<^sup>3 - 1\<close>, the only numbers the program makes); any other number
  literal is kept as its text, \<open>JOtherNum\<close>, and is never computed with. The members of an
  object are listed in the order of their first occurrence.
\<close>

datatype jsval =
    Undefined
  | JNull
  | JBool bool
  | JNum int
  | JOtherNum jsstring
  | JStr jsstring
  | JArr "jsval list"
  | JObj "(jsstring \<times> jsval) list"

subsection \<open>\<^verbatim>\<open>JSON.stringify(value, null, 2)\<close>\<close>

text \<open>Decimal digits of an integer, as \<^verbatim>\<open>Number::toString\<close> writes it.\<close>

fun show_nat :: "nat \<Rightarrow> jsstring" where
  "show_nat n = (if n < 10 then [of_nat (48 + n)] else show_nat (n div 10) @ [of_nat (48 + n mod 10)])"

declare show_nat.simps [simp del]

definition show_int :: "int \<Rightarrow> jsstring" where
  "show_int i = (if i < 0 then js ''-'' @ show_nat (nat (- i)) else show_nat (nat i))"

definition hex_digit :: "nat \<Rightarrow> jschar" where
  "hex_digit d = (if d < 10 then of_nat (48 + d) else of_nat (87 + d))"

text \<open>\<^verbatim>\<open>UnicodeEscape\<close>: backslash, \<open>u\<close> and four lower-case hexadecimal digits.\<close>

definition unicode_escape :: "jschar \<Rightarrow> jsstring" where
  "unicode_escape c = [0x5C, 0x75, hex_digit (unat c div 4096), hex_digit (unat c div 256 mod 16),
      hex_digit (unat c div 16 mod 16), hex_digit (unat c mod 16)]"

definition is_leading_surrogate :: "jschar \<Rightarrow> bool" where
  "is_leading_surrogate c \<longleftrightarrow> 0xD800 \<le> c \<and> c \<le> 0xDBFF"

definition is_trailing_surrogate :: "jschar \<Rightarrow> bool" where
  "is_trailing_surrogate c \<longleftrightarrow> 0xDC00 \<le> c \<and> c \<le> 0xDFFF"

text \<open>
  \<^verbatim>\<open>QuoteJSONString\<close>: backspace, tab, line feed, form feed, carriage return, the double
  quote (\<open>0x22\<close>) and the backslash (\<open>0x5C\<close>) get their two-character escapes; other
  control characters and lone surrogates are written as a \<open>u\<close> escape with four digits; a
  surrogate pair and every other code unit are copied.
\<close>

definition quote_unit :: "jschar \<Rightarrow> jsstring" where
  "quote_unit c =
    (if c = 0x08 then 0x5C # js ''b'' else if c = 0x09 then 0x5C # js ''t''
     else if c = 0x0A then 0x5C # js ''n'' else if c = 0x0C then 0x5C # js ''f''
     else if c = 0x0D then 0x5C # js ''r''
     else if c = 0x22 then [0x5C, 0x22] else if c = 0x5C then [0x5C, 0x5C]
     else if c < 0x20 \<or> is_leading_surrogate c \<or> is_trailing_surrogate c then unicode_escape c
     else [c])"

fun quote_body :: "jsstring \<Rightarrow> jsstring" where
  "quote_body [] = []"
| "quote_body [c] = quote_unit c"
| "quote_body (c # d # cs) =
     (if is_leading_surrogate c \<and> is_trailing_surrogate d then c # d # quote_body cs
      else quote_unit c @ quote_body (d # cs))"

definition QuoteJSONString :: "jsstring \<Rightarrow> jsstring" where
  "QuoteJSONString s = 0x22 # quote_body s @ [0x22]"

definition pad :: "nat \<Rightarrow> jsstring" where
  "pad n = replicate n 0x20"

fun join :: "'a list \<Rightarrow> 'a list list \<Rightarrow> 'a list" where
  "join sep [] = []"
| "join sep [x] = x"
| "join sep (x # y # ys) = x @ sep @ join sep (y # ys)"

text \<open>
  \<^verbatim>\<open>SerializeJSONProperty\<close> with a gap of two spaces; the first argument is the current
  indentation. The result \<open>None\<close> is \<^verbatim>\<open>undefined\<close>: a member whose value is \<^verbatim>\<open>undefined\<close> is
  left out of its object, an element that is \<^verbatim>\<open>undefined\<close> is written \<^verbatim>\<open>null\<close>.
\<close>

fun SerializeJSONProperty :: "nat \<Rightarrow> jsval \<Rightarrow> jsstring option"
  and serialize_elements :: "nat \<Rightarrow> jsval list \<Rightarrow> jsstring list"
  and serialize_members :: "nat \<Rightarrow> (jsstring \<times> jsval) list \<Rightarrow> jsstring list"
where
  "SerializeJSONProperty n Undefined = None"
| "SerializeJSONProperty n JNull = Some (js ''null'')"
| "SerializeJSONProperty n (JBool b) = Some (if b then js ''true'' else js ''false'')"
| "SerializeJSONProperty n (JNum i) = Some (show_int i)"
| "SerializeJSONProperty n (JOtherNum l) = Some l"
| "SerializeJSONProperty n (JStr s) = Some (QuoteJSONString s)"
| "SerializeJSONProperty n (JArr vs) =
     Some (if vs = [] then js ''[]''
           else js ''[\<newline>'' @ pad (n + 2)
                @ join (js '',\<newline>'' @ pad (n + 2)) (serialize_elements (n + 2) vs)
                @ js ''\<newline>'' @ pad n @ js '']'')"
| "SerializeJSONProperty n (JObj kvs) =
     Some (let partial = serialize_members (n + 2) kvs in
           if partial = [] then js ''{}''
           else js ''{\<newline>'' @ pad (n + 2) @ join (js '',\<newline>'' @ pad (n + 2)) partial
                @ js ''\<newline>'' @ pad n @ js ''}'')"
| "serialize_elements n [] = []"
| "serialize_elements n (v # vs) =
     (case SerializeJSONProperty n v of None \<Rightarrow> js ''null'' | Some s \<Rightarrow> s) # serialize_elements n vs"
| "serialize_members n [] = []"
| "serialize_members n ((k, v) # kvs) =
     (case SerializeJSONProperty n v of
        None \<Rightarrow> serialize_members n kvs
      | Some s \<Rightarrow> (QuoteJSONString k @ js '': '' @ s) # serialize_members n kvs)"

definition JSON_stringify :: "jsval \<Rightarrow> jsstring option" where
  "JSON_stringify v = SerializeJSONProperty 0 v"

subsection \<open>\<^verbatim>\<open>JSON.parse\<close>\<close>

text \<open>
  The JSON grammar, read in two passes: the text is cut into tokens, and a stack
  machine reads the tokens. \<open>None\<close> is the \<^verbatim>\<open>SyntaxError\<close>. White space is space, tab,
  line feed and carriage return.
\<close>

definition is_json_ws :: "jschar \<Rightarrow> bool" where
  "is_json_ws c \<longleftrightarrow> c = 0x20 \<or> c = 0x09 \<or> c = 0x0A \<or> c = 0x0D"

definition is_digit :: "jschar \<Rightarrow> bool" where
  "is_digit c \<longleftrightarrow> 0x30 \<le> c \<and> c \<le> 0x39"

definition hex_value :: "jschar \<Rightarrow> nat option" where
  "hex_value c =
     (if 0x30 \<le> c \<and> c \<le> 0x39 then Some (unat c - 48)
      else if 0x61 \<le> c \<and> c \<le> 0x66 then Some (unat c - 87)
      else if 0x41 \<le> c \<and> c \<le> 0x46 then Some (unat c - 55)
      else None)"

text \<open>
  The character after a backslash: a double quote, a backslash, a slash, or one of
  \<open>b f n r t\<close>.
\<close>

definition unescape :: "jschar \<Rightarrow> jschar option" where
  "unescape e =
     (if e = 0x22 then Some 0x22 else if e = 0x5C then Some 0x5C else if e = 0x2F then Some 0x2F
      else if e = 0x62 then Some 0x08 else if e = 0x66 then Some 0x0C
      else if e = 0x6E then Some 0x0A else if e = 0x72 then Some 0x0D
      else if e = 0x74 then Some 0x09 else None)"

definition hex4 :: "jschar \<Rightarrow> jschar \<Rightarrow> jschar \<Rightarrow> jschar \<Rightarrow> jschar option" where
  "hex4 a b c d =
     (case (hex_value a, hex_value b, hex_value c, hex_value d) of
        (Some p, Some q, Some r, Some s) \<Rightarrow> Some (of_nat (((p * 16 + q) * 16 + r) * 16 + s))
      | _ \<Rightarrow> None)"

definition cons_result :: "'a \<Rightarrow> ('a list \<times> 'b) option \<Rightarrow> ('a list \<times> 'b) option" where
  "cons_result c r = map_option (\<lambda>(s, rest). (c # s, rest)) r"

text \<open>
  A string, from the character after its opening quote: the decoded string and the text
  after the closing quote. A raw control character ends the parse.
\<close>

fun scan_string :: "jsstring \<Rightarrow> (jsstring \<times> jsstring) option" where
  "scan_string [] = None"
| "scan_string (c # cs) =
     (if c = 0x22 then Some ([], cs)
      else if c = 0x5C then
        (case cs of
           [] \<Rightarrow> None
         | e # es \<Rightarrow>
             if e = 0x75 then
               (case es of
                  h1 # h2 # h3 # h4 # r \<Rightarrow>
                    (case hex4 h1 h2 h3 h4 of
                       None \<Rightarrow> None
                     | Some u \<Rightarrow> cons_result u (scan_string r))
                | _ \<Rightarrow> None)
             else
               (case unescape e of
                  None \<Rightarrow> None
                | Some u \<Rightarrow> cons_result u (scan_string es)))
      else if c < 0x20 then None
      else cons_result c (scan_string cs))"

text \<open>
  A number: an optional minus, an integer part without a leading zero, an optional
  fraction and an optional exponent. The result is the literal and the text after it.
\<close>

definition scan_digits :: "jsstring \<Rightarrow> jsstring \<times> jsstring" where
  "scan_digits s = (takeWhile is_digit s, dropWhile is_digit s)"

definition scan_fraction :: "jsstring \<Rightarrow> (jsstring \<times> jsstring) option" where
  "scan_fraction s =
     (case s of
        c # r \<Rightarrow>
          if c = 0x2E then
            (let (ds, rest) = scan_digits r in if ds = [] then None else Some (c # ds, rest))
          else Some ([], s)
      | [] \<Rightarrow> Some ([], s))"

definition scan_exponent :: "jsstring \<Rightarrow> (jsstring \<times> jsstring) option" where
  "scan_exponent s =
     (case s of
        c # r \<Rightarrow>
          if c = 0x65 \<or> c = 0x45 then
            (let (sign, r') = (case r of x # r'' \<Rightarrow> if x = 0x2B \<or> x = 0x2D then ([x], r'') else ([], r)
                                      | [] \<Rightarrow> ([], r));
                 (ds, rest) = scan_digits r'
             in if ds = [] then None else Some (c # sign @ ds, rest))
          else Some ([], s)
      | [] \<Rightarrow> Some ([], s))"

definition scan_number :: "jsstring \<Rightarrow> (jsstring \<times> jsstring) option" where
  "scan_number s =
     (let (sign, s1) = (case s of c # r \<Rightarrow> if c = 0x2D then ([c], r) else ([], s) | [] \<Rightarrow> ([], s));
          (ds, s2) = scan_digits s1
      in if ds = [] \<or> (hd ds = 0x30 \<and> length ds > 1) then None
         else (case scan_fraction s2 of
                 None \<Rightarrow> None
               | Some (fr, s3) \<Rightarrow>
                   (case scan_exponent s3 of
                      None \<Rightarrow> None
                    | Some (ex, s4) \<Rightarrow> Some (sign @ ds @ fr @ ex, s4))))"

datatype token =
    LBrace | RBrace | LBracket | RBracket | Colon | Comma
  | TString jsstring | TNumber jsstring | TTrue | TFalse | TNull

definition emit :: "token \<Rightarrow> token list option \<Rightarrow> token list option" where
  "emit t r = map_option ((#) t) r"

definition starts_with :: "jsstring \<Rightarrow> jsstring \<Rightarrow> bool" where
  "starts_with p s \<longleftrightarrow> take (length p) s = p"

text \<open>
  The tokens of a text. The first argument counts the characters still to be passed
  over because the token found before them covers them.
\<close>

fun tokenize :: "nat \<Rightarrow> jsstring \<Rightarrow> token list option" where
  "tokenize k [] = Some []"
| "tokenize (Suc k) (c # cs) = tokenize k cs"
| "tokenize 0 (c # cs) =
     (if is_json_ws c then tokenize 0 cs
      else if c = 0x7B then emit LBrace (tokenize 0 cs)
      else if c = 0x7D then emit RBrace (tokenize 0 cs)
      else if c = 0x5B then emit LBracket (tokenize 0 cs)
      else if c = 0x5D then emit RBracket (tokenize 0 cs)
      else if c = 0x3A then emit Colon (tokenize 0 cs)
      else if c = 0x2C then emit Comma (tokenize 0 cs)
      else if c = 0x22 then
        (case scan_string cs of
           None \<Rightarrow> None
         | Some (s, rest) \<Rightarrow> emit (TString s) (tokenize (length cs - length rest) cs))
      else if starts_with (js ''true'') (c # cs) then emit TTrue (tokenize 3 cs)
      else if starts_with (js ''false'') (c # cs) then emit TFalse (tokenize 4 cs)
      else if starts_with (js ''null'') (c # cs) then emit TNull (tokenize 3 cs)
      else
        (case scan_number (c # cs) of
           None \<Rightarrow> None
         | Some (l, rest) \<Rightarrow> emit (TNumber l) (tokenize (length cs - length rest) cs)))"

definition digits_value :: "jsstring \<Rightarrow> int" where
  "digits_value ds = foldl (\<lambda>a c. 10 * a + (uint c - 48)) 0 ds"

text \<open>
  The value of a number literal: an integer literal of at most \<open>2\<^sup>5\<^sup>3 - 1\<close> in absolute
  value, other than \<^verbatim>\<open>-0\<close>, is that integer.
\<close>

definition number_value :: "jsstring \<Rightarrow> jsval" where
  "number_value l =
     (let negative = (l \<noteq> [] \<and> hd l = 0x2D);
          ds = (if negative then tl l else l)
      in if ds \<noteq> [] \<and> list_all is_digit ds \<and> digits_value ds \<le> 9007199254740991
            \<and> \<not> (negative \<and> digits_value ds = 0)
         then JNum (if negative then - digits_value ds else digits_value ds)
         else JOtherNum l)"

text \<open>
  The stack machine. A frame is an array or an object under construction; \<open>expect\<close> says
  what may come next. A member whose key is already there replaces the value and keeps
  the place, as a property assignment does.
\<close>

datatype frame =
    InArray "jsval list"
  | InObject "(jsstring \<times> jsval) list"
  | InMember "(jsstring \<times> jsval) list" jsstring

datatype expect = Value | FirstElement | FirstKey | Key | KeyColon jsstring | After jsval

definition put :: "(jsstring \<times> jsval) list \<Rightarrow> jsstring \<Rightarrow> jsval \<Rightarrow> (jsstring \<times> jsval) list" where
  "put kvs k v =
     (if k \<in> set (map fst kvs) then map (\<lambda>(k', v'). if k' = k then (k', v) else (k', v')) kvs
      else kvs @ [(k, v)])"

definition start_value :: "token \<Rightarrow> frame list \<Rightarrow> (expect \<times> frame list) option" where
  "start_value t st =
     (case t of
        TNull \<Rightarrow> Some (After JNull, st)
      | TTrue \<Rightarrow> Some (After (JBool True), st)
      | TFalse \<Rightarrow> Some (After (JBool False), st)
      | TNumber l \<Rightarrow> Some (After (number_value l), st)
      | TString s \<Rightarrow> Some (After (JStr s), st)
      | LBracket \<Rightarrow> Some (FirstElement, InArray [] # st)
      | LBrace \<Rightarrow> Some (FirstKey, InObject [] # st)
      | _ \<Rightarrow> None)"

fun step :: "expect \<times> frame list \<Rightarrow> token \<Rightarrow> (expect \<times> frame list) option" where
  "step (Value, st) t = start_value t st"
| "step (FirstElement, InArray vs # st) t =
     (if t = RBracket then Some (After (JArr vs), st) else start_value t (InArray vs # st))"
| "step (FirstKey, InObject kvs # st) t =
     (case t of RBrace \<Rightarrow> Some (After (JObj kvs), st)
              | TString k \<Rightarrow> Some (KeyColon k, InObject kvs # st)
              | _ \<Rightarrow> None)"
| "step (Key, InObject kvs # st) t =
     (case t of TString k \<Rightarrow> Some (KeyColon k, InObject kvs # st) | _ \<Rightarrow> None)"
| "step (KeyColon k, InObject kvs # st) t =
     (if t = Colon then Some (Value, InMember kvs k # st) else None)"
| "step (After v, InArray vs # st) t =
     (case t of Comma \<Rightarrow> Some (Value, InArray (vs @ [v]) # st)
              | RBracket \<Rightarrow> Some (After (JArr (vs @ [v])), st)
              | _ \<Rightarrow> None)"
| "step (After v, InMember kvs k # st) t =
     (case t of Comma \<Rightarrow> Some (Key, InObject (put kvs k v) # st)
              | RBrace \<Rightarrow> Some (After (JObj (put kvs k v)), st)
              | _ \<Rightarrow> None)"
| "step _ t = None"

fun run :: "expect \<times> frame list \<Rightarrow> token list \<Rightarrow> jsval option" where
  "run (After v, []) [] = Some v"
| "run _ [] = None"
| "run s (t # ts) = (case step s t of None \<Rightarrow> None | Some s' \<Rightarrow> run s' ts)"

definition JSON_parse :: "jsstring \<Rightarrow> jsval option" where
  "JSON_parse s = (case tokenize 0 s of None \<Rightarrow> None | Some ts \<Rightarrow> run (Value, []) ts)"

section \<open>Errors, messages, the provider's stream\<close>

text \<open>
  The exceptions of the program. \<open>InitializationError\<close> is
  \<^verbatim>\<open>Error("Failed to initiate OpenAI Client")\<close>, \<open>NotInitializedError\<close> is
  \<^verbatim>\<open>Error("OpenAI not initialized")\<close>, \<open>StreamSetupError\<close> is \<^verbatim>\<open>Error("Error in stream")\<close>,
  \<open>TypeError\<close> is what reading \<^verbatim>\<open>.delta\<close> of \<^verbatim>\<open>undefined\<close> throws, \<open>StreamBroken\<close> is an
  error thrown by the provider's iterator between two events, and \<open>HistorySaveError\<close>
  is a failing \<^verbatim>\<open>fs.writeFileSync\<close>. \<open>IllShapedHistory\<close> is no exception of the program: it
  marks the runs of \<^verbatim>\<open>main\<close> that this model does not follow (see \<open>main\<close> below).
\<close>

datatype error =
    InitializationError
  | NotInitializedError
  | StreamSetupError
  | TypeError
  | StreamBroken
  | HistorySaveError
  | IllShapedHistory

datatype role = System | User | Assistant

record AIMessage =
  role :: role
  content :: jsstring

record CurrentAIConversation =
  messages :: "AIMessage list"

text \<open>The client handle: \<^verbatim>\<open>new OpenAI({ apiKey })\<close> keeps the key and checks nothing.\<close>

record OpenAI =
  apiKey :: jsstring

text \<open>
  One event of the stream, as far as the program reads it:
  \<^verbatim>\<open>event.choices[0].delta.content\<close>, an optional string.
\<close>

record delta =
  delta_content :: "jsstring option"

record choice =
  delta :: delta

record event =
  choices :: "choice list"

datatype stream_item = Event event | Broken

record chat_request =
  req_messages :: "AIMessage list"
  req_model :: jsstring
  req_temperature :: "real option"
  req_stream :: bool

text \<open>
  What \<^verbatim>\<open>openai.chat.completions.create\<close> answers: a rejection (with the text
  \<^verbatim>\<open>console.log\<close> prints for its reason) or the stream.
\<close>

datatype provider_reply = Rejected jsstring | Completion "stream_item list"

section \<open>The process and its surroundings\<close>

text \<open>
  Standard output is the list of writes, in order: \<^verbatim>\<open>process.stdout.write(s)\<close> adds
  \<open>s\<close>, \<^verbatim>\<open>console.log(s)\<close> adds \<open>s\<close> and a newline. Standard error holds one entry per
  \<^verbatim>\<open>console.error\<close> call of the program (the printed form of the error object it is
  given is the platform's).
\<close>

datatype diagnostic =
    Could_not_read_first_file
  | Could_not_read_second_file
  | Error_calling_LLM error

datatype choice_item = Choice jsstring | Separator

datatype question =
    Input_question jsstring
  | List_question jsstring "choice_item list"

text \<open>
  The mutable state: the module variable \<^verbatim>\<open>openai\<close>, the file system (absolute path
  to decoded text; \<open>None\<close> where \<^verbatim>\<open>fs.readFileSync\<close> throws), both output streams,
  the questions put to the user so far and the requests sent to the provider so far.
\<close>

record world =
  openai :: "OpenAI option"
  files :: "jsstring \<Rightarrow> jsstring option"
  stdout :: "jsstring list"
  stderr :: "diagnostic list"
  asked :: "question list"
  requests :: "chat_request list"

text \<open>
  What the run is given: the fixed path \<^verbatim>\<open>HISTORY_FILE\<close>, \<^verbatim>\<open>path.resolve\<close>, whether a
  write to a path succeeds, the user's answers to the prompts, the provider, and the
  string \<^verbatim>\<open>new Date().toISOString()\<close> returns when the session is recorded.
\<close>

record env =
  HISTORY_FILE :: jsstring
  path_resolve :: "jsstring \<Rightarrow> jsstring"
  writable :: "jsstring \<Rightarrow> bool"
  answer_apiKey :: jsstring
  answer_selectedOrNew :: jsstring
  answer_newSelectorText :: jsstring
  answer_filePath1 :: jsstring
  answer_filePath2 :: jsstring
  answer_taskPrompt :: jsstring
  provider :: "chat_request \<Rightarrow> provider_reply"
  now_ISO :: jsstring

definition console_log :: "jsstring \<Rightarrow> world \<Rightarrow> world" where
  "console_log s w = w\<lparr>stdout := stdout w @ [s @ js ''\<newline>'']\<rparr>"

definition stdout_write :: "jsstring \<Rightarrow> world \<Rightarrow> world" where
  "stdout_write s w = w\<lparr>stdout := stdout w @ [s]\<rparr>"

definition console_error :: "diagnostic \<Rightarrow> world \<Rightarrow> world" where
  "console_error d w = w\<lparr>stderr := stderr w @ [d]\<rparr>"

section \<open>The LLM client\<close>

text \<open>\<^verbatim>\<open>initializeClient\<close>: \<^verbatim>\<open>if (apiKey)\<close> is false for \<^verbatim>\<open>undefined\<close> and for \<^verbatim>\<open>""\<close>.\<close>

definition initializeClient :: "jsstring option \<Rightarrow> world \<Rightarrow> (error + OpenAI) \<times> world" where
  "initializeClient key w =
     (case key of
        None \<Rightarrow> (Inl InitializationError, w)
      | Some k \<Rightarrow>
          if k \<noteq> [] then (Inr \<lparr>apiKey = k\<rparr>, w\<lparr>openai := Some \<lparr>apiKey = k\<rparr>\<rparr>)
          else (Inl InitializationError, w))"

text \<open>
  The \<^verbatim>\<open>for await\<close> loop of \<^verbatim>\<open>sendMessageToChatGPTWithStream\<close>, with the accumulator
  \<^verbatim>\<open>message\<close>. \<^verbatim>\<open>event.choices[0]\<close> of an empty array is \<^verbatim>\<open>undefined\<close>, and reading
  \<^verbatim>\<open>.delta\<close> of it throws.
\<close>

fun stream_loop :: "stream_item list \<Rightarrow> jsstring \<Rightarrow> world \<Rightarrow> (error + jsstring) \<times> world" where
  "stream_loop [] message w = (Inr message, w)"
| "stream_loop (Broken # rest) message w = (Inl StreamBroken, w)"
| "stream_loop (Event e # rest) message w =
     (case choices e of
        [] \<Rightarrow> (Inl TypeError, w)
      | c # _ \<Rightarrow>
          (case delta_content (delta c) of
             None \<Rightarrow> stream_loop rest message w
           | Some d \<Rightarrow>
               if d \<noteq> [] then stream_loop rest (message @ d) (stdout_write d w)
               else stream_loop rest message w))"

definition sendMessageToChatGPTWithStream ::
  "env \<Rightarrow> CurrentAIConversation \<Rightarrow> jsstring \<Rightarrow> real option \<Rightarrow> world \<Rightarrow> (error + jsstring) \<times> world"
where
  "sendMessageToChatGPTWithStream en conversation model temperature w =
     (case openai w of
        None \<Rightarrow> (Inl NotInitializedError, w)
      | Some _ \<Rightarrow>
          (let request = \<lparr>req_messages = messages conversation, req_model = model,
                          req_temperature = temperature, req_stream = True\<rparr>;
               w1 = w\<lparr>requests := requests w @ [request]\<rparr>
           in case provider en request of
                Rejected err \<Rightarrow> (Inl StreamSetupError, console_log err w1)
              | Completion completion \<Rightarrow> stream_loop completion [] w1))"

section \<open>The history store\<close>

text \<open>\<^verbatim>\<open>interface HistoryData\<close>; the field \<^verbatim>\<open>id\<close> of a session is \<open>id'\<close> here.\<close>

record SessionRecord =
  id' :: int
  selectorText :: jsstring
  filePath1 :: jsstring
  filePath2 :: jsstring
  taskPrompt :: jsstring
  timestamp :: jsstring

record HistoryData =
  openAiApiKey :: "jsstring option"
  rawTextsUsed :: "jsstring list"
  sessions :: "SessionRecord list"

text \<open>
  The object behind a \<^verbatim>\<open>HistoryData\<close>, with its properties in the order of the object
  literals of the source, and the way back: \<open>as_HistoryData\<close> says which values have the
  declared type (exactly the declared properties, in any order, each of its declared
  type, every \<^verbatim>\<open>id\<close> an integer that a double holds exactly).
\<close>

definition session_js :: "SessionRecord \<Rightarrow> jsval" where
  "session_js s = JObj
     [(js ''id'', JNum (id' s)),
      (js ''selectorText'', JStr (selectorText s)),
      (js ''filePath1'', JStr (filePath1 s)),
      (js ''filePath2'', JStr (filePath2 s)),
      (js ''taskPrompt'', JStr (taskPrompt s)),
      (js ''timestamp'', JStr (timestamp s))]"

definition history_js :: "HistoryData \<Rightarrow> jsval" where
  "history_js h = JObj
     [(js ''openAiApiKey'', (case openAiApiKey h of None \<Rightarrow> Undefined | Some k \<Rightarrow> JStr k)),
      (js ''rawTextsUsed'', JArr (map JStr (rawTextsUsed h))),
      (js ''sessions'', JArr (map session_js (sessions h)))]"

definition property :: "(jsstring \<times> jsval) list \<Rightarrow> string \<Rightarrow> jsval" where
  "property kvs name = (case map_of kvs (js name) of None \<Rightarrow> Undefined | Some v \<Rightarrow> v)"

definition as_string :: "jsval \<Rightarrow> jsstring option" where
  "as_string v = (case v of JStr s \<Rightarrow> Some s | _ \<Rightarrow> None)"

definition as_integer :: "jsval \<Rightarrow> int option" where
  "as_integer v = (case v of JNum i \<Rightarrow> if \<bar>i\<bar> \<le> 9007199254740991 then Some i else None | _ \<Rightarrow> None)"

definition as_optional_string :: "jsval \<Rightarrow> jsstring option option" where
  "as_optional_string v = (case v of Undefined \<Rightarrow> Some None | JStr s \<Rightarrow> Some (Some s) | _ \<Rightarrow> None)"

definition as_array :: "(jsval \<Rightarrow> 'a option) \<Rightarrow> jsval \<Rightarrow> 'a list option" where
  "as_array f v = (case v of JArr vs \<Rightarrow> those (map f vs) | _ \<Rightarrow> None)"

definition as_SessionRecord :: "jsval \<Rightarrow> SessionRecord option" where
  "as_SessionRecord v =
     (case v of
        JObj kvs \<Rightarrow>
          if distinct (map fst kvs) \<and>
             set (map fst kvs) = {js ''id'', js ''selectorText'', js ''filePath1'', js ''filePath2'',
                                  js ''taskPrompt'', js ''timestamp''}
          then
            Option.bind (as_integer (property kvs ''id'')) (\<lambda>i.
            Option.bind (as_string (property kvs ''selectorText'')) (\<lambda>sel.
            Option.bind (as_string (property kvs ''filePath1'')) (\<lambda>p1.
            Option.bind (as_string (property kvs ''filePath2'')) (\<lambda>p2.
            Option.bind (as_string (property kvs ''taskPrompt'')) (\<lambda>task.
            Option.bind (as_string (property kvs ''timestamp'')) (\<lambda>ts.
              Some \<lparr>id' = i, selectorText = sel, filePath1 = p1, filePath2 = p2,
                    taskPrompt = task, timestamp = ts\<rparr>))))))
          else None
      | _ \<Rightarrow> None)"

definition as_HistoryData :: "jsval \<Rightarrow> HistoryData option" where
  "as_HistoryData v =
     (case v of
        JObj kvs \<Rightarrow>
          if distinct (map fst kvs) \<and>
             set (map fst kvs) \<subseteq> {js ''openAiApiKey'', js ''rawTextsUsed'', js ''sessions''}
          then
            Option.bind (as_optional_string (property kvs ''openAiApiKey'')) (\<lambda>key.
            Option.bind (as_array as_string (property kvs ''rawTextsUsed'')) (\<lambda>raws.
            Option.bind (as_array as_SessionRecord (property kvs ''sessions'')) (\<lambda>ss.
              Some \<lparr>openAiApiKey = key, rawTextsUsed = raws, sessions = ss\<rparr>)))
          else None
      | _ \<Rightarrow> None)"

text \<open>
  \<^verbatim>\<open>loadHistory\<close>: the \<^verbatim>\<open>catch\<close> covers a failing \<^verbatim>\<open>readFileSync\<close> and a failing
  \<^verbatim>\<open>JSON.parse\<close>; whatever \<^verbatim>\<open>JSON.parse\<close> returns is returned as it is.
\<close>

definition default_history :: jsval where
  "default_history = JObj
     [(js ''openAiApiKey'', Undefined), (js ''rawTextsUsed'', JArr []), (js ''sessions'', JArr [])]"

definition loadHistory :: "env \<Rightarrow> world \<Rightarrow> jsval" where
  "loadHistory en w =
     (case files w (HISTORY_FILE en) of
        None \<Rightarrow> default_history
      | Some data \<Rightarrow>
          (case JSON_parse data of
             None \<Rightarrow> default_history
           | Some v \<Rightarrow> v))"

text \<open>
  \<^verbatim>\<open>fs.writeFileSync(path, data, "utf-8")\<close> replaces the text of the file or throws; a
  write that fails leaves the file as it was. \<^verbatim>\<open>saveHistory\<close> catches nothing.

  \<open>saveHistory\<close> takes the history as a value of the type \<^verbatim>\<open>HistoryData\<close> and writes its
  members in the order of the interface. The object that \<^verbatim>\<open>main\<close> passes is the one
  \<^verbatim>\<open>JSON.parse\<close> returned, with its members in the order of the file and a key added at
  step 2 in the last place. So the text written here and the text the program writes hold
  the same members with the same values, but not always in the same order: the statements
  about a saved history are about the value read back from the file, never about its text.
\<close>

definition writeFileSync :: "env \<Rightarrow> jsstring \<Rightarrow> jsstring \<Rightarrow> world \<Rightarrow> (error + unit) \<times> world" where
  "writeFileSync en path data w =
     (if writable en path then (Inr (), w\<lparr>files := (files w)(path \<mapsto> data)\<rparr>)
      else (Inl HistorySaveError, w))"

definition saveHistory :: "env \<Rightarrow> HistoryData \<Rightarrow> world \<Rightarrow> (error + unit) \<times> world" where
  "saveHistory en historyData w =
     (case JSON_stringify (history_js historyData) of
        None \<Rightarrow> (Inl TypeError, w)
      | Some text \<Rightarrow> writeFileSync en (HISTORY_FILE en) text w)"

section \<open>The main flow\<close>

definition ask :: "question \<Rightarrow> world \<Rightarrow> world" where
  "ask q w = w\<lparr>asked := asked w @ [q]\<rparr>"

text \<open>
  Step 2 of \<^verbatim>\<open>main\<close>: \<^verbatim>\<open>if (!history.openAiApiKey)\<close> holds for a missing and for an empty
  key; the trimmed answer is stored and the history saved at once.
\<close>

definition main_check_api_key :: "env \<Rightarrow> HistoryData \<Rightarrow> world \<Rightarrow> (error + HistoryData) \<times> world" where
  "main_check_api_key en history w =
     (if openAiApiKey history = None \<or> openAiApiKey history = Some [] then
        (let w1 = ask (Input_question (js ''Please enter your OpenAI API key:'')) w;
             history1 = history\<lparr>openAiApiKey := Some (trim (answer_apiKey en))\<rparr>
         in case saveHistory en history1 w1 of
              (Inl e, w2) \<Rightarrow> (Inl e, w2)
            | (Inr _, w2) \<Rightarrow> (Inr history1, w2))
      else (Inr history, w))"

text \<open>
  Step 4: the list of choices, and the selector text (\<^verbatim>\<open>selectorText\<close>, here \<open>selector\<close>). The answer to the list prompt is
  one of the choices; the sentinel leads to the second prompt, whose answer is pushed
  untrimmed when its trimmed form is not empty.
\<close>

definition rawTextChoices :: "HistoryData \<Rightarrow> choice_item list" where
  "rawTextChoices history =
     (if rawTextsUsed history \<noteq> [] then
        map Choice (rawTextsUsed history) @ [Separator, Choice (js ''Enter new text'')]
      else [Choice (js ''Enter new text'')])"

definition main_select_text :: "env \<Rightarrow> HistoryData \<Rightarrow> world \<Rightarrow> jsstring \<times> HistoryData \<times> world" where
  "main_select_text en history w =
     (let w1 = ask (List_question (js ''Select step or enter a new one:'') (rawTextChoices history)) w;
          selectedOrNew = answer_selectedOrNew en
      in if selectedOrNew = js ''Enter new text'' then
           (let w2 = ask (Input_question (js ''Enter the raw text for this step:'')) w1;
                selector = answer_newSelectorText en
            in if trim selector \<noteq> [] then
                 (selector, history\<lparr>rawTextsUsed := rawTextsUsed history @ [selector]\<rparr>, w2)
               else (selector, history, w2))
         else (selectedOrNew, history, w1))"

text \<open>Step 5: the three prompts for the paths and the task.\<close>

definition main_ask_paths :: "world \<Rightarrow> world" where
  "main_ask_paths w =
     ask (Input_question (js ''(Optional) Enter the LLM task or prompt (press enter to skip):''))
       (ask (Input_question (js ''Enter the absolute path of the second file:''))
         (ask (Input_question (js ''Enter the absolute path of the first file:'')) w))"

text \<open>
  Step 7: the conversation. \<^verbatim>\<open>answers.taskPrompt || "..."\<close> takes the fallback for the
  empty string. The selector text is no argument.
\<close>

definition main_conversation :: "jsstring \<Rightarrow> jsstring \<Rightarrow> jsstring \<Rightarrow> CurrentAIConversation" where
  "main_conversation fileContent1 fileContent2 task =
     \<lparr>messages =
        [\<lparr>role = System,
          content = js ''You are a helpful assistant that compares two files and provides insights.''\<rparr>,
         \<lparr>role = User,
          content =
            js ''\<newline>I have two files.\<newline>\<newline>File 1 Content:\<newline>'' @ fileContent1
            @ js ''\<newline>\<newline>File 2 Content:\<newline>'' @ fileContent2
            @ js ''\<newline>\<newline>Task: ''
            @ (if task \<noteq> [] then task else js ''Compare and analyze the differences.'')
            @ js ''\<newline>''\<rparr>]\<rparr>"

text \<open>Step 10: the session pushed onto \<^verbatim>\<open>history.sessions\<close>.\<close>

definition main_new_session :: "env \<Rightarrow> jsstring \<Rightarrow> HistoryData \<Rightarrow> HistoryData" where
  "main_new_session en selector history =
     (let newSessionId = int (length (sessions history)) + 1
      in history\<lparr>sessions := sessions history @
           [\<lparr>id' = newSessionId,
             selectorText = selector,
             filePath1 = answer_filePath1 en,
             filePath2 = answer_filePath2 en,
             taskPrompt = answer_taskPrompt en,
             timestamp = now_ISO en\<rparr>]\<rparr>)"

text \<open>
  \<^verbatim>\<open>main\<close>. The result \<open>Inr ()\<close> is a promise that resolves, after the last step or after
  one of the three \<^verbatim>\<open>return\<close>s; \<open>Inl\<close> is an exception that leaves \<^verbatim>\<open>main\<close>.

  The variable \<^verbatim>\<open>history\<close> has the type \<^verbatim>\<open>HistoryData\<close>, and the steps are modelled for a loaded
  value of that type. The source makes no such check: on a value of another shape it runs
  on, with whatever JavaScript does at the property accesses of steps 2, 4 and 10. Those
  runs are not modelled; \<open>IllShapedHistory\<close> stands for them, and says nothing about what
  the program does. Every statement about \<open>main\<close> is made for a loaded value of the
  declared shape.
\<close>

definition main :: "env \<Rightarrow> world \<Rightarrow> (error + unit) \<times> world" where
  "main en w0 =
     (let w1 = console_log (js ''Welcome to the File Comparison + LLM CLI!\<newline>'') w0 in
      case as_HistoryData (loadHistory en w1) of
        None \<Rightarrow> (Inl IllShapedHistory, w1)
      | Some history \<Rightarrow>
     (case main_check_api_key en history w1 of
        (Inl e, w2) \<Rightarrow> (Inl e, w2)
      | (Inr history2, w2) \<Rightarrow>
     (case initializeClient (openAiApiKey history2) w2 of
        (Inl e, w3) \<Rightarrow> (Inl e, w3)
      | (Inr _, w3) \<Rightarrow>
     (case main_select_text en history2 w3 of
        (selector, history3, w4) \<Rightarrow>
     (let w5 = main_ask_paths w4 in
      case files w5 (path_resolve en (answer_filePath1 en)) of
        None \<Rightarrow> (Inr (), console_error Could_not_read_first_file w5)
      | Some fileContent1 \<Rightarrow>
     (case files w5 (path_resolve en (answer_filePath2 en)) of
        None \<Rightarrow> (Inr (), console_error Could_not_read_second_file w5)
      | Some fileContent2 \<Rightarrow>
     (let conversation = main_conversation fileContent1 fileContent2 (answer_taskPrompt en);
          w6 = console_log (js ''\<newline>--- LLM Response (streaming) ---\<newline>'') w5
      in case sendMessageToChatGPTWithStream en conversation (js ''gpt-4o-mini'') (Some (7 / 10)) w6 of
        (Inl e, w7) \<Rightarrow> (Inr (), console_error (Error_calling_LLM e) w7)
      | (Inr response, w7) \<Rightarrow>
     (let w8 = console_log (js ''\<newline>\<newline>--- LLM Response (complete) ---\<newline>'' @ js '' '' @ response) w7;
          history4 = main_new_session en selector history3
      in case saveHistory en history4 w8 of
        (Inl e, w9) \<Rightarrow> (Inl e, w9)
      | (Inr _, w9) \<Rightarrow>
          (Inr (), console_log (js ''\<newline>Session saved. Goodbye!'') w9)))))))))"

section \<open>Notions used in the statements and proofs\<close>

text \<open>
  In the words of the specification: the deltas that count are the non-empty contents of
  the first choice of each event, in arrival order.
\<close>

definition contributing_deltas :: "event list \<Rightarrow> jsstring list" where
  "contributing_deltas evs =
     concat (map (\<lambda>e. case choices e of [] \<Rightarrow> []
                       | c # _ \<Rightarrow> (case delta_content (delta c) of None \<Rightarrow> []
                                   | Some d \<Rightarrow> if d = [] then [] else [d])) evs)"

text \<open>
  The values that JSON text can express exactly in this model: no \<^verbatim>\<open>undefined\<close>, integers
  that a double holds exactly, objects with distinct keys.
\<close>

fun json_value :: "jsval \<Rightarrow> bool" where
  "json_value Undefined = False"
| "json_value JNull = True"
| "json_value (JBool b) = True"
| "json_value (JNum i) = (\<bar>i\<bar> \<le> 9007199254740991)"
| "json_value (JOtherNum l) = False"
| "json_value (JStr s) = True"
| "json_value (JArr vs) = (\<forall>v\<in>set vs. json_value v)"
| "json_value (JObj kvs) = (distinct (map fst kvs) \<and> (\<forall>kv\<in>set kvs. json_value (snd kv)))"

text \<open>The tokens of the text written for a value.\<close>

fun tokens :: "jsval \<Rightarrow> token list" where
  "tokens Undefined = []"
| "tokens JNull = [TNull]"
| "tokens (JBool b) = [if b then TTrue else TFalse]"
| "tokens (JNum i) = [TNumber (show_int i)]"
| "tokens (JOtherNum l) = [TNumber l]"
| "tokens (JStr s) = [TString s]"
| "tokens (JArr vs) = LBracket # join [Comma] (map tokens vs) @ [RBracket]"
| "tokens (JObj kvs) =
     LBrace # join [Comma] (map (\<lambda>kv. TString (fst kv) # Colon # tokens (snd kv)) kvs) @ [RBrace]"

definition prepend :: "token list \<Rightarrow> token list option \<Rightarrow> token list option" where
  "prepend ts r = map_option ((@) ts) r"

text \<open>What follows a written value: nothing, a comma or a line feed.\<close>

definition delimited :: "jsstring \<Rightarrow> bool" where
  "delimited rest \<longleftrightarrow> rest = [] \<or> hd rest = 0x2C \<or> hd rest = 0x0A"

definition lexes :: "nat \<Rightarrow> jsval \<Rightarrow> bool" where
  "lexes n v \<longleftrightarrow> (\<forall>rest. delimited rest \<longrightarrow>
     (\<exists>s. SerializeJSONProperty n v = Some s
        \<and> tokenize 0 (s @ rest) = prepend (tokens v) (tokenize 0 rest)))"

definition parses :: "jsval \<Rightarrow> bool" where
  "parses v \<longleftrightarrow> (\<forall>st ts. run (Value, st) (tokens v @ ts) = run (After v, st) ts)"

text \<open>A history whose session numbers are integers that a double holds exactly.\<close>

definition well_formed :: "HistoryData \<Rightarrow> bool" where
  "well_formed h \<longleftrightarrow> (\<forall>s\<in>set (sessions h). \<bar>id' s\<bar> \<le> 9007199254740991)"

text \<open>The object a history is written as: a missing key is no member.\<close>

definition history_json :: "HistoryData \<Rightarrow> jsval" where
  "history_json h = JObj
     ((case openAiApiKey h of None \<Rightarrow> [] | Some k \<Rightarrow> [(js ''openAiApiKey'', JStr k)]) @
      [(js ''rawTextsUsed'', JArr (map JStr (rawTextsUsed h))),
       (js ''sessions'', JArr (map session_js (sessions h)))])"

text \<open>
  The run of \<open>main\<close>, seen from outside. \<open>falsy_key\<close> is the test \<^verbatim>\<open>!history.openAiApiKey\<close>;
  \<open>key_after\<close> is the key after step 2, \<open>selector_of\<close> the selector text after step 4 and
  \<open>texts_after\<close> the list \<^verbatim>\<open>rawTextsUsed\<close> after step 4; \<open>recorded_session\<close> is the session of
  step 10 and \<open>completed_history\<close> the history a completed run saves.
\<close>

definition falsy_key :: "HistoryData \<Rightarrow> bool" where
  "falsy_key h \<longleftrightarrow> openAiApiKey h = None \<or> openAiApiKey h = Some []"

definition key_after :: "env \<Rightarrow> HistoryData \<Rightarrow> jsstring option" where
  "key_after en h = (if falsy_key h then Some (trim (answer_apiKey en)) else openAiApiKey h)"

definition selector_of :: "env \<Rightarrow> jsstring" where
  "selector_of en =
     (if answer_selectedOrNew en = js ''Enter new text'' then answer_newSelectorText en
      else answer_selectedOrNew en)"

definition texts_after :: "env \<Rightarrow> jsstring list \<Rightarrow> jsstring list" where
  "texts_after en raws =
     (if answer_selectedOrNew en = js ''Enter new text'' \<and> trim (answer_newSelectorText en) \<noteq> []
      then raws @ [answer_newSelectorText en] else raws)"

definition recorded_session :: "env \<Rightarrow> HistoryData \<Rightarrow> SessionRecord" where
  "recorded_session en h =
     \<lparr>id' = int (length (sessions h)) + 1, selectorText = selector_of en,
      filePath1 = answer_filePath1 en, filePath2 = answer_filePath2 en,
      taskPrompt = answer_taskPrompt en, timestamp = now_ISO en\<rparr>"

definition completed_history :: "env \<Rightarrow> HistoryData \<Rightarrow> HistoryData" where
  "completed_history en h =
     h\<lparr>openAiApiKey := key_after en h, rawTextsUsed := texts_after en (rawTextsUsed h),
       sessions := sessions h @ [recorded_session en h]\<rparr>"

text \<open>
  The text \<open>saveHistory\<close> writes for a history; the files as they are once step 2 is
  over, which is when the two input files are read; the request of step 8.
\<close>

definition history_text :: "HistoryData \<Rightarrow> jsstring" where
  "history_text h = (case JSON_stringify (history_js h) of None \<Rightarrow> [] | Some doc \<Rightarrow> doc)"

definition files_after_key :: "env \<Rightarrow> HistoryData \<Rightarrow> world \<Rightarrow> jsstring \<Rightarrow> jsstring option" where
  "files_after_key en h w =
     (if falsy_key h then (files w)(HISTORY_FILE en \<mapsto> history_text (h\<lparr>openAiApiKey := key_after en h\<rparr>))
      else files w)"

definition sent_request :: "env \<Rightarrow> jsstring \<Rightarrow> jsstring \<Rightarrow> chat_request" where
  "sent_request en fileContent1 fileContent2 =
     \<lparr>req_messages = messages (main_conversation fileContent1 fileContent2 (answer_taskPrompt en)),
      req_model = js ''gpt-4o-mini'', req_temperature = Some (7 / 10), req_stream = True\<rparr>"

definition expected_requests :: "env \<Rightarrow> HistoryData \<Rightarrow> world \<Rightarrow> chat_request list" where
  "expected_requests en h w =
     (if (falsy_key h \<and> \<not> writable en (HISTORY_FILE en)) \<or> key_after en h = Some [] then []
      else case files_after_key en h w (path_resolve en (answer_filePath1 en)) of
             None \<Rightarrow> []
           | Some f1 \<Rightarrow>
               (case files_after_key en h w (path_resolve en (answer_filePath2 en)) of
                  None \<Rightarrow> []
                | Some f2 \<Rightarrow> [sent_request en f1 f2]))"

text \<open>One string occurs in another: somewhere in it, as a contiguous part.\<close>

fun occurs_in :: "jsstring \<Rightarrow> jsstring \<Rightarrow> bool" where
  "occurs_in s [] = (s = [])"
| "occurs_in s (c # cs) = (starts_with s (c # cs) \<or> occurs_in s cs)"

section \<open>Concrete surroundings\<close>

text \<open>
  The end-to-end scenario of the specification: no history file, key \<open>sk-test\<close>, the
  sentinel chosen and \<open>demo\<close> entered, \<open>foo.txt\<close> holding \<open>alpha\<close>, \<open>bar.txt\<close> holding
  \<open>beta\<close>, no task prompt, and a stream that yields \<open>diff found\<close>.
\<close>

definition text_event :: "jsstring option \<Rightarrow> event" where
  "text_event d = \<lparr>choices = [\<lparr>delta = \<lparr>delta_content = d\<rparr>\<rparr>]\<rparr>"

definition demo_world :: world where
  "demo_world = \<lparr>openai = None,
     files = (\<lambda>p. if p = js ''/cwd/foo.txt'' then Some (js ''alpha'')
                  else if p = js ''/cwd/bar.txt'' then Some (js ''beta'') else None),
     stdout = [], stderr = [], asked = [], requests = []\<rparr>"

definition demo_env :: env where
  "demo_env = \<lparr>HISTORY_FILE = js ''/app/.cli-history.json'',
     path_resolve = (\<lambda>p. js ''/cwd/'' @ p),
     writable = (\<lambda>p. True),
     answer_apiKey = js '' sk-test '',
     answer_selectedOrNew = js ''Enter new text'',
     answer_newSelectorText = js ''demo'',
     answer_filePath1 = js ''foo.txt'',
     answer_filePath2 = js ''bar.txt'',
     answer_taskPrompt = [],
     provider = (\<lambda>r. Completion [Event (text_event (Some (js ''diff ''))),
                                    Event (text_event (Some (js ''found'')))]),
     now_ISO = js ''2024-05-01T12:00:00.000Z''\<rparr>"

text \<open>The stream of the specification's example: \<open>He\<close>, \<open>llo\<close>, no content, \<open> world\<close>.\<close>

definition hello_events :: "event list" where
  "hello_events = [text_event (Some (js ''He'')), text_event (Some (js ''llo'')),
                   text_event (Some []), text_event None, text_event (Some (js '' world''))]"

definition initialized_world :: world where
  "initialized_world = demo_world\<lparr>openai := Some \<lparr>apiKey = js ''sk-test''\<rparr>\<rparr>"

text \<open>
  A history file holding the text \<open>[]\<close>, one holding text that is not JSON, and the
  history that the scenario leaves behind.
\<close>

definition array_world :: world where
  "array_world = demo_world\<lparr>files := (files demo_world)(HISTORY_FILE demo_env \<mapsto> js ''[]'')\<rparr>"

definition garbage_world :: world where
  "garbage_world = demo_world\<lparr>files := (files demo_world)(HISTORY_FILE demo_env \<mapsto> js ''{oops'')\<rparr>"

definition demo_history :: HistoryData where
  "demo_history = \<lparr>openAiApiKey = Some (js ''sk-test''), rawTextsUsed = [js ''demo''],
     sessions = [\<lparr>id' = 1, selectorText = js ''demo'', filePath1 = js ''foo.txt'',
                  filePath2 = js ''bar.txt'', taskPrompt = [],
                  timestamp = js ''2024-05-01T12:00:00.000Z''\<rparr>]\<rparr>"

text \<open>
  Variations of the scenario: an environment that differs from it in the answers about
  the selector only; a history file that already holds two sessions; the entered text
  \<open>alpha\<close> (the text of the first file), one padded with blanks, one of blanks only; a
  first path that cannot be read.
\<close>

definition like_demo :: "env \<Rightarrow> bool" where
  "like_demo en \<longleftrightarrow> HISTORY_FILE en = HISTORY_FILE demo_env \<and> path_resolve en = path_resolve demo_env
     \<and> writable en = writable demo_env \<and> answer_apiKey en = answer_apiKey demo_env
     \<and> answer_filePath1 en = answer_filePath1 demo_env \<and> answer_filePath2 en = answer_filePath2 demo_env
     \<and> provider en = provider demo_env"

definition two_sessions :: HistoryData where
  "two_sessions = \<lparr>openAiApiKey = Some (js ''sk-test''), rawTextsUsed = [js ''demo''],
     sessions = [\<lparr>id' = 1, selectorText = js ''demo'', filePath1 = js ''foo.txt'',
                  filePath2 = js ''bar.txt'', taskPrompt = [],
                  timestamp = js ''2024-05-01T12:00:00.000Z''\<rparr>,
                 \<lparr>id' = 2, selectorText = js ''demo'', filePath1 = js ''foo.txt'',
                  filePath2 = js ''bar.txt'', taskPrompt = js ''List the changes'',
                  timestamp = js ''2024-05-02T08:30:00.000Z''\<rparr>]\<rparr>"

definition two_sessions_world :: world where
  "two_sessions_world =
     demo_world\<lparr>files := (files demo_world)(HISTORY_FILE demo_env \<mapsto> history_text two_sessions)\<rparr>"

definition alpha_env :: env where
  "alpha_env = demo_env\<lparr>answer_newSelectorText := js ''alpha''\<rparr>"

definition spaced_env :: env where
  "spaced_env = demo_env\<lparr>answer_newSelectorText := js ''  demo ''\<rparr>"

definition blank_env :: env where
  "blank_env = demo_env\<lparr>answer_newSelectorText := js ''   ''\<rparr>"

definition missing_env :: env where
  "missing_env = demo_env\<lparr>answer_filePath1 := js ''nope.txt''\<rparr>"

text \<open>
  A history file written by hand, with no key and \<^verbatim>\<open>sessions\<close> before \<^verbatim>\<open>rawTextsUsed\<close>: the
  text is \<open>{\<close>, then \<open>sessions\<close> in double quotes, \<open>:[],\<close>, then \<open>rawTextsUsed\<close> in double
  quotes, \<open>:[]}\<close>.
\<close>

definition reordered_text :: jsstring where
  "reordered_text = 0x7B # 0x22 # js ''sessions'' @ 0x22 # js '':[],'' @ 0x22 # js ''rawTextsUsed''
     @ 0x22 # js '':[]}''"

definition reordered_world :: world where
  "reordered_world = demo_world\<lparr>files := (files demo_world)(HISTORY_FILE demo_env \<mapsto> reordered_text)\<rparr>"

section \<open>Theorems\<close>

subsection \<open>JSON: what is written is read back\<close>

lemma hex_value_hex_digit: "d < 16 \<Longrightarrow> hex_value (hex_digit d) = Some d"
proof -
  assume "d < 16"
  then have "d = 0 \<or> d = 1 \<or> d = 2 \<or> d = 3 \<or> d = 4 \<or> d = 5 \<or> d = 6 \<or> d = 7 \<or> d = 8
     \<or> d = 9 \<or> d = 10 \<or> d = 11 \<or> d = 12 \<or> d = 13 \<or> d = 14 \<or> d = 15" by arith
  then show ?thesis by (elim disjE) (simp_all add: hex_value_def hex_digit_def)
qed

lemma hex_split:
  "((n div 4096 * 16 + n div 256 mod 16) * 16 + n div 16 mod 16) * 16 + n mod 16 = (n::nat)"
proof -
  have a: "n div 4096 = n div 16 div 16 div 16" by (simp add: div_mult2_eq)
  have b: "n div 256 = n div 16 div 16" by (simp add: div_mult2_eq)
  show ?thesis unfolding a b by simp
qed

lemma hex4_hex_digits:
  assumes "p < 16" "q < 16" "r < 16" "s < 16"
  shows "hex4 (hex_digit p) (hex_digit q) (hex_digit r) (hex_digit s)
         = Some (of_nat (((p * 16 + q) * 16 + r) * 16 + s))"
  by (simp only: hex4_def hex_value_hex_digit assms prod.case option.case)

lemma hex4_unicode:
  "hex4 (hex_digit (unat c div 4096)) (hex_digit (unat c div 256 mod 16))
        (hex_digit (unat c div 16 mod 16)) (hex_digit (unat c mod 16)) = Some (c::jschar)"
proof -
  have lt: "unat c < 65536" using unsigned_less [of c] by simp
  then have "unat c div 4096 < 16" by simp
  then have "hex4 (hex_digit (unat c div 4096)) (hex_digit (unat c div 256 mod 16))
        (hex_digit (unat c div 16 mod 16)) (hex_digit (unat c mod 16))
      = Some (of_nat (((unat c div 4096 * 16 + unat c div 256 mod 16) * 16 + unat c div 16 mod 16) * 16
                 + unat c mod 16))"
    by (intro hex4_hex_digits) simp_all
  also have "\<dots> = Some (of_nat (unat c))"
    by (simp only: hex_split)
  finally show ?thesis by simp
qed

lemma scan_unicode_escape:
  "scan_string (unicode_escape c @ r) = cons_result c (scan_string r)"
  by (simp add: unicode_escape_def hex4_unicode)

lemma scan_plain:
  "c \<noteq> 0x22 \<Longrightarrow> c \<noteq> 0x5C \<Longrightarrow> \<not> c < 0x20 \<Longrightarrow>
   scan_string (c # r) = cons_result c (scan_string r)"
  by simp

lemma scan_quote_unit: "scan_string (quote_unit c @ r) = cons_result c (scan_string r)"
proof (cases "c = 0x08 \<or> c = 0x09 \<or> c = 0x0A \<or> c = 0x0C \<or> c = 0x0D \<or> c = 0x22 \<or> c = 0x5C")
  case True
  then show ?thesis
    by (elim disjE) (simp_all add: quote_unit_def js_def unescape_def)
next
  case False
  then have q: "quote_unit c =
      (if c < 0x20 \<or> is_leading_surrogate c \<or> is_trailing_surrogate c then unicode_escape c else [c])"
    by (simp add: quote_unit_def)
  show ?thesis
  proof (cases "c < 0x20 \<or> is_leading_surrogate c \<or> is_trailing_surrogate c")
    case True
    with q show ?thesis by (simp add: scan_unicode_escape del: scan_string.simps)
  next
    case no: False
    with q False show ?thesis by (simp add: scan_plain del: scan_string.simps)
  qed
qed

lemma surrogate_plain:
  "is_leading_surrogate c \<or> is_trailing_surrogate c \<Longrightarrow> c \<noteq> 0x22 \<and> c \<noteq> 0x5C \<and> \<not> c < 0x20"
  by (auto simp: is_leading_surrogate_def is_trailing_surrogate_def word_le_nat_alt word_less_nat_alt)

lemma scan_quote_body: "scan_string (quote_body s @ 0x22 # r) = Some (s, r)"
proof (induction s rule: quote_body.induct)
  case 1
  then show ?case by simp
next
  case (2 c)
  have "scan_string (quote_unit c @ 0x22 # r) = cons_result c (scan_string (0x22 # r))"
    by (rule scan_quote_unit)
  then show ?case by (simp add: cons_result_def)
next
  case (3 c d cs)
  show ?case
  proof (cases "is_leading_surrogate c \<and> is_trailing_surrogate d")
    case True
    then have c: "c \<noteq> 0x22 \<and> c \<noteq> 0x5C \<and> \<not> c < 0x20" and d: "d \<noteq> 0x22 \<and> d \<noteq> 0x5C \<and> \<not> d < 0x20"
      using surrogate_plain by blast+
    have "scan_string (c # d # quote_body cs @ 0x22 # r)
        = cons_result c (cons_result d (scan_string (quote_body cs @ 0x22 # r)))"
      using c d by (simp add: scan_plain del: scan_string.simps)
    moreover have "quote_body (c # d # cs) = c # d # quote_body cs"
      by (simp add: True)
    moreover from True 3 have "scan_string (quote_body cs @ 0x22 # r) = Some (cs, r)"
      by blast
    ultimately show ?thesis by (simp add: cons_result_def del: scan_string.simps quote_body.simps)
  next
    case False
    have "scan_string (quote_unit c @ quote_body (d # cs) @ 0x22 # r)
        = cons_result c (scan_string (quote_body (d # cs) @ 0x22 # r))"
      by (rule scan_quote_unit)
    moreover have "quote_body (c # d # cs) = quote_unit c @ quote_body (d # cs)"
      by (simp add: False)
    moreover from False 3 have "scan_string (quote_body (d # cs) @ 0x22 # r) = Some (d # cs, r)"
      by blast
    ultimately show ?thesis by (simp add: cons_result_def del: scan_string.simps quote_body.simps)
  qed
qed

lemma digit_char:
  assumes "d < 10"
  shows "is_digit (48 + word_of_nat d)" and "uint (48 + word_of_nat d :: jschar) = 48 + int d"
    and "(word_of_nat d :: jschar) = 0 \<longleftrightarrow> d = 0"
proof -
  from assms
  have "d = 0 \<or> d = 1 \<or> d = 2 \<or> d = 3 \<or> d = 4 \<or> d = 5 \<or> d = 6 \<or> d = 7 \<or> d = 8 \<or> d = 9"
    by arith
  then show "is_digit (48 + word_of_nat d)" and "uint (48 + word_of_nat d :: jschar) = 48 + int d"
    and "(word_of_nat d :: jschar) = 0 \<longleftrightarrow> d = 0"
    by (elim disjE; simp add: is_digit_def)+
qed

lemma show_nat_digits: "list_all is_digit (show_nat n)"
proof (induction n rule: show_nat.induct)
  case (1 n)
  show ?case
  proof (cases "n < 10")
    case True
    then show ?thesis by (subst show_nat.simps) (simp add: digit_char)
  next
    case False
    with 1 show ?thesis by (subst show_nat.simps) (simp add: digit_char)
  qed
qed

lemma show_nat_not_Nil: "show_nat n \<noteq> []"
  by (subst show_nat.simps) simp

lemma digits_value_snoc: "digits_value (ds @ [c]) = 10 * digits_value ds + (uint c - 48)"
  by (simp add: digits_value_def)

lemma digits_value_show_nat: "digits_value (show_nat n) = int n"
proof (induction n rule: show_nat.induct)
  case (1 n)
  show ?case
  proof (cases "n < 10")
    case True
    then show ?thesis by (subst show_nat.simps) (simp add: digit_char digits_value_def)
  next
    case False
    then have "digits_value (show_nat n) = 10 * int (n div 10) + int (n mod 10)"
      using 1 by (subst show_nat.simps) (simp add: digits_value_snoc digit_char)
    then show ?thesis by (simp add: zdiv_int zmod_int)
  qed
qed

lemma hd_show_nat: "hd (show_nat n) = 0x30 \<Longrightarrow> n = 0"
proof (induction n rule: show_nat.induct)
  case (1 n)
  show ?case
  proof (cases "n < 10")
    case True
    with "1.prems" show ?thesis by (simp add: show_nat.simps [of n] digit_char)
  next
    case False
    then have "hd (show_nat n) = hd (show_nat (n div 10))"
      by (subst show_nat.simps) (simp add: show_nat_not_Nil)
    with 1 False have "n div 10 = 0" by simp
    with False show ?thesis by simp
  qed
qed

lemma show_nat_zero: "show_nat 0 = [0x30]"
  by (simp add: show_nat.simps)

lemma not_digit_stop:
  "rest = [] \<or> \<not> is_digit (hd rest) \<Longrightarrow> list_all is_digit ds \<Longrightarrow> scan_digits (ds @ rest) = (ds, rest)"
  by (cases rest) (auto simp: scan_digits_def list_all_iff takeWhile_append dropWhile_append
      takeWhile_eq_all_conv dropWhile_eq_Nil_conv)

lemma delimited_props:
  "delimited rest \<Longrightarrow> (rest = [] \<or> \<not> is_digit (hd rest))
     \<and> scan_fraction rest = Some ([], rest) \<and> scan_exponent rest = Some ([], rest)"
  by (cases rest) (auto simp: delimited_def is_digit_def scan_fraction_def scan_exponent_def)

lemma scan_number_digits:
  assumes "delimited rest" "list_all is_digit ds" "ds \<noteq> []" "hd ds = 0x30 \<longrightarrow> length ds = 1"
  shows "scan_number (ds @ rest) = Some (ds, rest)"
    and "scan_number (0x2D # ds @ rest) = Some (0x2D # ds, rest)"
proof -
  from assms(3) obtain d ds' where ds: "ds = d # ds'" by (cases ds) auto
  with assms(2) have d: "is_digit d" by simp
  then have "d \<noteq> 0x2D" by (auto simp: is_digit_def)
  moreover have "scan_digits (ds @ rest) = (ds, rest)"
    using assms delimited_props not_digit_stop by blast
  moreover have "\<not> (hd ds = 0x30 \<and> length ds > 1)" using assms(4) by auto
  ultimately show "scan_number (ds @ rest) = Some (ds, rest)"
    "scan_number (0x2D # ds @ rest) = Some (0x2D # ds, rest)"
    using assms(1,3) delimited_props [of rest]
    by (simp_all add: scan_number_def ds [symmetric] del: One_nat_def)
       (simp_all add: ds)
qed

lemma scan_number_show_int:
  "delimited rest \<Longrightarrow> scan_number (show_int i @ rest) = Some (show_int i, rest)"
proof -
  assume r: "delimited rest"
  have *: "hd (show_nat n) = 0x30 \<longrightarrow> length (show_nat n) = 1" for n
    using hd_show_nat [of n] by (auto simp: show_nat_zero)
  show ?thesis
    using scan_number_digits [OF r show_nat_digits show_nat_not_Nil *]
    by (simp add: show_int_def js_def)
qed

lemma number_value_show_int:
  "\<bar>i\<bar> \<le> 9007199254740991 \<Longrightarrow> number_value (show_int i) = JNum i"
proof (cases "i < 0")
  case True
  assume "\<bar>i\<bar> \<le> 9007199254740991"
  with True show ?thesis
    by (simp add: number_value_def show_int_def js_def show_nat_not_Nil show_nat_digits
        digits_value_show_nat)
next
  case False
  assume b: "\<bar>i\<bar> \<le> 9007199254740991"
  have "is_digit (hd (show_nat (nat i)))"
    using show_nat_digits [of "nat i"] show_nat_not_Nil [of "nat i"]
    by (cases "show_nat (nat i)") simp_all
  then have "hd (show_nat (nat i)) \<noteq> 0x2D" by (auto simp: is_digit_def)
  with False b show ?thesis
    by (simp add: number_value_def show_int_def show_nat_not_Nil show_nat_digits
        digits_value_show_nat)
qed

lemma lex_skip: "tokenize (length xs) (xs @ ys) = tokenize 0 ys"
  by (induction xs) simp_all

lemma lex_ws: "is_json_ws c \<Longrightarrow> tokenize 0 (c # s) = tokenize 0 s"
  by simp

lemma lex_pad: "tokenize 0 (pad n @ s) = tokenize 0 s"
  by (induction n) (simp_all add: pad_def is_json_ws_def)

lemma lex_string: "tokenize 0 (QuoteJSONString s @ rest) = emit (TString s) (tokenize 0 rest)"
proof -
  have "tokenize (length (quote_body s @ [0x22])) ((quote_body s @ [0x22]) @ rest) = tokenize 0 rest"
    by (rule lex_skip)
  then show ?thesis
    by (simp add: QuoteJSONString_def scan_quote_body is_json_ws_def)
qed

lemma starts_with_Cons: "starts_with (p # ps) (c # cs) \<longleftrightarrow> c = p \<and> starts_with ps cs"
  by (auto simp: starts_with_def)

lemma starts_with_Nil: "starts_with [] s"
  by (simp add: starts_with_def)

lemma lex_number_start:
  assumes "scan_number (c # cs) = Some (l, rest)" "is_digit c \<or> c = 0x2D"
  shows "tokenize 0 (c # cs) = emit (TNumber l) (tokenize (length cs - length rest) cs)"
proof -
  from assms(2) have "\<not> is_json_ws c \<and> c \<noteq> 0x7B \<and> c \<noteq> 0x7D \<and> c \<noteq> 0x5B \<and> c \<noteq> 0x5D
      \<and> c \<noteq> 0x3A \<and> c \<noteq> 0x2C \<and> c \<noteq> 0x22 \<and> c \<noteq> 0x74 \<and> c \<noteq> 0x66 \<and> c \<noteq> 0x6E"
    by (auto simp: is_digit_def is_json_ws_def)
  with assms(1) show ?thesis
    by (simp add: js_def starts_with_Cons)
qed

lemma lex_number:
  assumes "delimited rest"
  shows "tokenize 0 (show_int i @ rest) = emit (TNumber (show_int i)) (tokenize 0 rest)"
proof -
  have "show_int i \<noteq> []"
    by (simp add: show_int_def show_nat_not_Nil)
  then obtain c cs where c: "show_int i = c # cs"
    by (cases "show_int i") auto
  have start: "is_digit c \<or> c = 0x2D"
  proof (cases "i < 0")
    case True
    with c show ?thesis by (simp add: show_int_def js_def)
  next
    case False
    with c show_nat_digits [of "nat i"] show ?thesis
      by (simp add: show_int_def)
  qed
  have "scan_number (c # cs @ rest) = Some (c # cs, rest)"
    using scan_number_show_int [OF assms, of i] c by simp
  from lex_number_start [OF this start]
  have "tokenize 0 (c # cs @ rest) = emit (TNumber (c # cs)) (tokenize (length cs) (cs @ rest))"
    by simp
  then show ?thesis by (simp add: c lex_skip)
qed

lemma lex_skip_3: "tokenize 3 (a # b # c # s) = tokenize 0 s"
  by (simp add: eval_nat_numeral)

lemma lex_skip_4: "tokenize 4 (a # b # c # d # s) = tokenize 0 s"
  by (simp add: eval_nat_numeral)

lemma lex_literals:
  "tokenize 0 (js ''null'' @ rest) = emit TNull (tokenize 0 rest)"
  "tokenize 0 (js ''true'' @ rest) = emit TTrue (tokenize 0 rest)"
  "tokenize 0 (js ''false'' @ rest) = emit TFalse (tokenize 0 rest)"
  by (simp_all add: js_def is_json_ws_def starts_with_Cons starts_with_Nil lex_skip_3 lex_skip_4)

lemma prepend_simps:
  "prepend [] r = r"
  "prepend (t # ts) r = emit t (prepend ts r)"
  "prepend (ts @ us) r = prepend ts (prepend us r)"
  by (cases r; simp add: prepend_def emit_def)+

lemma lex_punct:
  "tokenize 0 (0x7B # s) = emit LBrace (tokenize 0 s)"
  "tokenize 0 (0x7D # s) = emit RBrace (tokenize 0 s)"
  "tokenize 0 (0x5B # s) = emit LBracket (tokenize 0 s)"
  "tokenize 0 (0x5D # s) = emit RBracket (tokenize 0 s)"
  "tokenize 0 (0x3A # s) = emit Colon (tokenize 0 s)"
  "tokenize 0 (0x2C # s) = emit Comma (tokenize 0 s)"
  "tokenize 0 (0x0A # s) = tokenize 0 s"
  "tokenize 0 (0x20 # s) = tokenize 0 s"
  by (simp_all add: is_json_ws_def)

lemma delimited_simps: "delimited (0x2C # s)" "delimited (0x0A # s)" "delimited []"
  by (simp_all add: delimited_def)

lemma lex_elements:
  assumes "\<forall>v\<in>set vs. lexes m v" "vs \<noteq> []" "delimited R"
  shows "tokenize 0 (join (js '',\<newline>'' @ pad m) (serialize_elements m vs) @ R)
         = prepend (join [Comma] (map tokens vs)) (tokenize 0 R)"
  using assms
proof (induction vs)
  case Nil
  then show ?case by simp
next
  case (Cons v vs)
  from Cons.prems have v: "lexes m v" by simp
  show ?case
  proof (cases vs)
    case Nil
    from v Cons.prems(3) obtain s where
      "SerializeJSONProperty m v = Some s" "tokenize 0 (s @ R) = prepend (tokens v) (tokenize 0 R)"
      unfolding lexes_def by blast
    with Nil show ?thesis by simp
  next
    case (Cons w ws)
    let ?tail = "join (js '',\<newline>'' @ pad m) (serialize_elements m vs) @ R"
    from v obtain s where
      s: "SerializeJSONProperty m v = Some s"
         "tokenize 0 (s @ 0x2C # 0x0A # pad m @ ?tail) = prepend (tokens v) (tokenize 0 (0x2C # 0x0A # pad m @ ?tail))"
      unfolding lexes_def using delimited_simps(1) by blast
    have IH: "tokenize 0 ?tail = prepend (join [Comma] (map tokens vs)) (tokenize 0 R)"
      using Cons.IH Cons.prems Cons by simp
    show ?thesis
      using s IH Cons
      by (simp add: js_def lex_punct lex_pad prepend_simps del: tokenize.simps)
  qed
qed

lemma lex_members:
  assumes "\<forall>kv\<in>set kvs. lexes m (snd kv)" "kvs \<noteq> []" "delimited R"
  shows "tokenize 0 (join (js '',\<newline>'' @ pad m) (serialize_members m kvs) @ R)
         = prepend (join [Comma] (map (\<lambda>kv. TString (fst kv) # Colon # tokens (snd kv)) kvs)) (tokenize 0 R)"
  using assms
proof (induction kvs)
  case Nil
  then show ?case by simp
next
  case (Cons kv kvs)
  obtain k v where kv: "kv = (k, v)" by (cases kv)
  from Cons.prems kv have v: "lexes m v" by simp
  show ?case
  proof (cases kvs)
    case Nil
    from v Cons.prems(3) obtain s where
      "SerializeJSONProperty m v = Some s" "tokenize 0 (s @ R) = prepend (tokens v) (tokenize 0 R)"
      unfolding lexes_def by blast
    with Nil kv show ?thesis
      by (simp add: js_def lex_string lex_punct prepend_simps del: tokenize.simps)
  next
    case (Cons kv' kvs')
    let ?tail = "join (js '',\<newline>'' @ pad m) (serialize_members m kvs) @ R"
    from v obtain s where
      s: "SerializeJSONProperty m v = Some s"
         "tokenize 0 (s @ 0x2C # 0x0A # pad m @ ?tail) = prepend (tokens v) (tokenize 0 (0x2C # 0x0A # pad m @ ?tail))"
      unfolding lexes_def using delimited_simps(1) by blast
    have IH: "tokenize 0 ?tail
        = prepend (join [Comma] (map (\<lambda>kv. TString (fst kv) # Colon # tokens (snd kv)) kvs)) (tokenize 0 R)"
      using Cons.IH Cons.prems Cons by simp
    obtain k' v' where kv': "kv' = (k', v')" by (cases kv')
    from Cons.prems Cons kv' have "lexes m v'" by simp
    then obtain s' where s': "SerializeJSONProperty m v' = Some s'"
      unfolding lexes_def using delimited_simps(3) by blast
    show ?thesis
      using s s' IH Cons kv kv'
      by (simp add: js_def lex_string lex_punct lex_pad prepend_simps del: tokenize.simps)
  qed
qed

lemma members_not_Nil:
  "\<forall>kv\<in>set kvs. lexes m (snd kv) \<Longrightarrow> kvs \<noteq> [] \<Longrightarrow> serialize_members m kvs \<noteq> []"
proof (cases kvs)
  case Nil
  assume "kvs \<noteq> []" with Nil show ?thesis by simp
next
  case (Cons kv kvs')
  assume a: "\<forall>kv\<in>set kvs. lexes m (snd kv)"
  obtain k v where kv: "kv = (k, v)" by (cases kv)
  with a Cons have "lexes m v" by simp
  then obtain s where "SerializeJSONProperty m v = Some s"
    unfolding lexes_def using delimited_simps(3) by blast
  with Cons kv show ?thesis by simp
qed

lemma lexes_json_value: "json_value v \<Longrightarrow> lexes n v"
proof (induction v arbitrary: n)
  case Undefined
  then show ?case by simp
next
  case JNull
  show ?case by (simp add: lexes_def lex_literals prepend_simps del: tokenize.simps)
next
  case (JBool b)
  show ?case by (simp add: lexes_def lex_literals prepend_simps del: tokenize.simps)
next
  case (JNum i)
  show ?case by (simp add: lexes_def lex_number prepend_simps del: tokenize.simps)
next
  case (JOtherNum l)
  then show ?case by simp
next
  case (JStr s)
  show ?case by (simp add: lexes_def lex_string prepend_simps del: tokenize.simps)
next
  case (JArr vs)
  then have all: "\<forall>v\<in>set vs. lexes (n + 2) v" by simp
  show ?case
  proof (cases "vs = []")
    case True
    then show ?thesis by (simp add: lexes_def js_def lex_punct prepend_simps del: tokenize.simps)
  next
    case False
    have "tokenize 0 (join (js '',\<newline>'' @ pad (n + 2)) (serialize_elements (n + 2) vs) @ 0x0A # R)
         = prepend (join [Comma] (map tokens vs)) (tokenize 0 (0x0A # R))" for R
      by (rule lex_elements [OF all False delimited_simps(2)])
    with False show ?thesis
      by (simp add: lexes_def js_def lex_punct lex_pad prepend_simps del: tokenize.simps)
  qed
next
  case (JObj kvs)
  then have all: "\<forall>kv\<in>set kvs. lexes (n + 2) (snd kv)"
    by (auto simp: snds.simps)
  show ?case
  proof (cases "kvs = []")
    case True
    then show ?thesis by (simp add: lexes_def js_def lex_punct prepend_simps del: tokenize.simps)
  next
    case False
    have "tokenize 0 (join (js '',\<newline>'' @ pad (n + 2)) (serialize_members (n + 2) kvs) @ 0x0A # R)
         = prepend (join [Comma] (map (\<lambda>kv. TString (fst kv) # Colon # tokens (snd kv)) kvs))
             (tokenize 0 (0x0A # R))" for R
      by (rule lex_members [OF all False delimited_simps(2)])
    with False members_not_Nil [OF all False] show ?thesis
      by (simp add: lexes_def js_def lex_punct lex_pad prepend_simps Let_def del: tokenize.simps)
  qed
qed

lemma tokens_start:
  "json_value v \<Longrightarrow> \<exists>t ts'. tokens v = t # ts' \<and> t \<noteq> RBracket"
  by (cases v) simp_all

lemma run_first_element:
  assumes "json_value v"
  shows "run (FirstElement, InArray a # st) (tokens v @ ts) = run (Value, InArray a # st) (tokens v @ ts)"
proof -
  from tokens_start [OF assms] obtain t ts' where "tokens v = t # ts'" "t \<noteq> RBracket" by blast
  then show ?thesis by simp
qed

lemma put_fresh: "k \<notin> fst ` set kvs \<Longrightarrow> put kvs k v = kvs @ [(k, v)]"
  by (simp add: put_def)

lemma run_elements:
  assumes "\<forall>v\<in>set vs. parses v" "vs \<noteq> []"
  shows "run (Value, InArray acc # st) (join [Comma] (map tokens vs) @ RBracket # ts)
         = run (After (JArr (acc @ vs)), st) ts"
  using assms
proof (induction vs arbitrary: acc)
  case Nil
  then show ?case by simp
next
  case (Cons v vs)
  from Cons.prems have v: "\<And>st ts. run (Value, st) (tokens v @ ts) = run (After v, st) ts"
    by (simp add: parses_def)
  show ?case
  proof (cases vs)
    case Nil
    then show ?thesis by (simp add: v)
  next
    case (Cons w ws)
    have "run (Value, InArray (acc @ [v]) # st) (join [Comma] (map tokens vs) @ RBracket # ts)
         = run (After (JArr ((acc @ [v]) @ vs)), st) ts"
      using Cons.IH Cons.prems Cons by simp
    with Cons show ?thesis by (simp add: v)
  qed
qed

lemma run_members:
  assumes "\<forall>kv\<in>set kvs. parses (snd kv)" "kvs \<noteq> []" "distinct (map fst kvs)"
    "fst ` set kvs \<inter> fst ` set acc = {}" "e = FirstKey \<or> e = Key"
  shows "run (e, InObject acc # st)
           (join [Comma] (map (\<lambda>kv. TString (fst kv) # Colon # tokens (snd kv)) kvs) @ RBrace # ts)
         = run (After (JObj (acc @ kvs)), st) ts"
  using assms
proof (induction kvs arbitrary: acc e)
  case Nil
  then show ?case by simp
next
  case (Cons kv kvs)
  obtain k v where kv: "kv = (k, v)" by (cases kv)
  from Cons.prems kv have v: "\<And>st ts. run (Value, st) (tokens v @ ts) = run (After v, st) ts"
    by (simp add: parses_def)
  from Cons.prems kv have fresh: "k \<notin> fst ` set acc" by auto
  have start: "run (e, InObject acc # st) (TString k # Colon # tokens v @ us)
      = run (After v, InMember acc k # st) us" for us
    using Cons.prems(5) by (auto simp: v)
  show ?case
  proof (cases kvs)
    case Nil
    then show ?thesis using start [of "RBrace # ts"] kv fresh
      by (simp add: put_fresh)
  next
    case (Cons kv' kvs')
    have "fst ` set kvs \<inter> fst ` set (acc @ [(k, v)]) = {}"
      using Cons.prems(3,4) kv by auto
    then have "run (Key, InObject (acc @ [(k, v)]) # st)
           (join [Comma] (map (\<lambda>kv. TString (fst kv) # Colon # tokens (snd kv)) kvs) @ RBrace # ts)
         = run (After (JObj ((acc @ [(k, v)]) @ kvs)), st) ts"
      using Cons.IH [of "acc @ [(k, v)]" Key] Cons.prems Cons by simp
    then show ?thesis
      using start [of "Comma # join [Comma] (map (\<lambda>kv. TString (fst kv) # Colon # tokens (snd kv)) kvs) @ RBrace # ts"]
          kv fresh Cons
      by (simp add: put_fresh)
  qed
qed

lemma parses_json_value: "json_value v \<Longrightarrow> parses v"
proof (induction v)
  case Undefined
  then show ?case by simp
next
  case JNull
  show ?case by (simp add: parses_def start_value_def)
next
  case (JBool b)
  show ?case by (simp add: parses_def start_value_def)
next
  case (JNum i)
  then show ?case by (simp add: parses_def start_value_def number_value_show_int)
next
  case (JOtherNum l)
  then show ?case by simp
next
  case (JStr s)
  show ?case by (simp add: parses_def start_value_def)
next
  case (JArr vs)
  then have all: "\<forall>v\<in>set vs. parses v" by simp
  show ?case
  proof (cases vs)
    case Nil
    then show ?thesis by (simp add: parses_def start_value_def)
  next
    case (Cons w ws)
    from JArr.prems Cons have w: "json_value w" by simp
    have "run (FirstElement, InArray [] # st) (join [Comma] (map tokens vs) @ RBracket # ts)
        = run (After (JArr vs), st) ts" for st ts
    proof -
      have "run (FirstElement, InArray [] # st) (join [Comma] (map tokens vs) @ RBracket # ts)
          = run (Value, InArray [] # st) (join [Comma] (map tokens vs) @ RBracket # ts)"
      proof (cases ws)
        case Nil
        with Cons show ?thesis using run_first_element [OF w, of "[]" st "RBracket # ts"] by simp
      next
        case (Cons x xs)
        with \<open>vs = w # ws\<close> show ?thesis
          using run_first_element [OF w, of "[]" st "Comma # join [Comma] (map tokens ws) @ RBracket # ts"]
          by simp
      qed
      also have "\<dots> = run (After (JArr ([] @ vs)), st) ts"
        using run_elements [OF all, of "[]" st ts] Cons by simp
      finally show ?thesis by simp
    qed
    then show ?thesis by (simp add: parses_def start_value_def)
  qed
next
  case (JObj kvs)
  then have all: "\<forall>kv\<in>set kvs. parses (snd kv)"
    by (auto simp: snds.simps)
  show ?case
  proof (cases "kvs = []")
    case True
    then show ?thesis by (simp add: parses_def start_value_def)
  next
    case False
    from JObj.prems have "distinct (map fst kvs)" by simp
    then have "run (FirstKey, InObject [] # st)
           (join [Comma] (map (\<lambda>kv. TString (fst kv) # Colon # tokens (snd kv)) kvs) @ RBrace # ts)
         = run (After (JObj ([] @ kvs)), st) ts" for st ts
      using run_members [OF all False, of "[]" FirstKey st ts] by simp
    then show ?thesis by (simp add: parses_def start_value_def)
  qed
qed

lemma JSON_parse_stringify:
  assumes "json_value v"
  shows "\<exists>s. JSON_stringify v = Some s \<and> JSON_parse s = Some v"
proof -
  from lexes_json_value [OF assms, of 0] obtain s where
    s: "SerializeJSONProperty 0 v = Some s" "tokenize 0 (s @ []) = prepend (tokens v) (tokenize 0 [])"
    unfolding lexes_def using delimited_simps(3) by blast
  then have "tokenize 0 s = Some (tokens v)" by (simp add: prepend_def)
  moreover have "run (Value, []) (tokens v @ []) = run (After v, []) []"
    using parses_json_value [OF assms] by (simp add: parses_def del: append_Nil2)
  ultimately show ?thesis using s(1) by (simp add: JSON_stringify_def JSON_parse_def)
qed


subsection \<open>The history store\<close>

lemma those_map_Some:
  "\<forall>x\<in>set xs. f x = Some (g x) \<Longrightarrow> those (map f xs) = Some (map g xs)"
  by (induction xs) simp_all

lemma as_SessionRecord_session_js:
  "\<bar>id' s\<bar> \<le> 9007199254740991 \<Longrightarrow> as_SessionRecord (session_js s) = Some s"
  by (simp add: as_SessionRecord_def session_js_def property_def as_integer_def as_string_def js_def)

lemma json_value_session_js:
  "\<bar>id' s\<bar> \<le> 9007199254740991 \<Longrightarrow> json_value (session_js s)"
  by (simp add: session_js_def js_def)

lemma stringify_history_js: "JSON_stringify (history_js h) = JSON_stringify (history_json h)"
  by (cases "openAiApiKey h") (simp_all add: JSON_stringify_def history_js_def history_json_def)

lemma json_value_history_json: "well_formed h \<Longrightarrow> json_value (history_json h)"
  by (cases "openAiApiKey h")
     (auto simp: history_json_def well_formed_def json_value_session_js js_def)

lemma as_array_strings: "as_array as_string (JArr (map JStr xs)) = Some xs"
  using those_map_Some [of "map JStr xs" as_string "\<lambda>v. case v of JStr s \<Rightarrow> s"]
  by (simp add: as_array_def as_string_def comp_def)

lemma as_array_sessions:
  "well_formed h \<Longrightarrow> as_array as_SessionRecord (JArr (map session_js (sessions h))) = Some (sessions h)"
  using those_map_Some [of "sessions h" "as_SessionRecord \<circ> session_js" "\<lambda>s. s"]
  by (simp add: as_array_def well_formed_def as_SessionRecord_session_js)

lemma as_HistoryData_history_json: "well_formed h \<Longrightarrow> as_HistoryData (history_json h) = Some h"
  by (cases "openAiApiKey h")
     (simp_all add: as_HistoryData_def history_json_def property_def as_optional_string_def
        as_array_strings as_array_sessions js_def)

lemma as_HistoryData_history_js: "well_formed h \<Longrightarrow> as_HistoryData (history_js h) = Some h"
  by (cases "openAiApiKey h")
     (simp_all add: as_HistoryData_def history_js_def property_def as_optional_string_def
        as_array_strings as_array_sessions js_def)

lemma stringify_history_parses:
  assumes "well_formed h"
  shows "\<exists>doc v. JSON_stringify (history_js h) = Some doc \<and> JSON_parse doc = Some v
            \<and> as_HistoryData v = Some h"
  using JSON_parse_stringify [OF json_value_history_json [OF assms]]
    as_HistoryData_history_json [OF assms]
  by (auto simp: stringify_history_js)

lemma as_HistoryData_default: "as_HistoryData default_history
   = Some \<lparr>openAiApiKey = None, rawTextsUsed = [], sessions = []\<rparr>"
  by (simp add: as_HistoryData_def default_history_def property_def as_optional_string_def
      as_array_def js_def)

lemma saveHistory_result:
  assumes "well_formed h"
  shows "\<exists>doc v. JSON_parse doc = Some v \<and> as_HistoryData v = Some h \<and>
     saveHistory en h w =
       (if writable en (HISTORY_FILE en)
        then (Inr (), w\<lparr>files := (files w)(HISTORY_FILE en \<mapsto> doc)\<rparr>)
        else (Inl HistorySaveError, w))"
proof -
  from stringify_history_parses [OF assms] obtain doc v where
    "JSON_stringify (history_js h) = Some doc" "JSON_parse doc = Some v" "as_HistoryData v = Some h"
    by blast
  then show ?thesis
    by (intro exI [of _ doc] exI [of _ v]) (simp add: saveHistory_def writeFileSync_def)
qed

text \<open>
  C5. For every well-formed history \<open>S\<close> (its session numbers are integers that a double
  holds exactly), when the write succeeds, \<open>saveHistory\<close> followed by \<open>loadHistory\<close> yields
  a value that, read as a \<open>HistoryData\<close>, is \<open>S\<close> again.
\<close>

theorem saveHistory_then_loadHistory:
  assumes "well_formed S" and "writable en (HISTORY_FILE en)"
  shows "\<exists>w'. saveHistory en S w = (Inr (), w') \<and> as_HistoryData (loadHistory en w') = Some S"
proof -
  from saveHistory_result [OF assms(1), of en w] assms(2) obtain doc v where
    "JSON_parse doc = Some v" "as_HistoryData v = Some S"
    "saveHistory en S w = (Inr (), w\<lparr>files := (files w)(HISTORY_FILE en \<mapsto> doc)\<rparr>)"
    by auto
  then show ?thesis by (simp add: loadHistory_def)
qed

text \<open>
  C1, as amended. \<open>loadHistory\<close> is total: it raises nothing. When the file cannot be
  read or its text is not JSON, it returns the default store, whose key is absent and
  whose two lists are empty. When the text is JSON, it returns the parsed value as it is,
  whatever its shape.
\<close>

theorem loadHistory_default_or_parsed:
  "(files w (HISTORY_FILE en) = None \<longrightarrow> loadHistory en w = default_history)
   \<and> (\<forall>data. files w (HISTORY_FILE en) = Some data \<and> JSON_parse data = None
         \<longrightarrow> loadHistory en w = default_history)
   \<and> (\<forall>data v. files w (HISTORY_FILE en) = Some data \<and> JSON_parse data = Some v
         \<longrightarrow> loadHistory en w = v)
   \<and> as_HistoryData default_history = Some \<lparr>openAiApiKey = None, rawTextsUsed = [], sessions = []\<rparr>"
  by (simp add: loadHistory_def as_HistoryData_default)

lemma parse_empty_array: "JSON_parse (js ''[]'') = Some (JArr [])"
  by (simp add: JSON_parse_def js_def is_json_ws_def emit_def start_value_def)

text \<open>
  C1 as stated fails: a history file holding \<open>[]\<close> parses to a value that is no
  \<open>HistoryData\<close>, and \<open>loadHistory\<close> returns that value, not the default store.
\<close>

theorem loadHistory_wrong_shape_counterexample:
  "loadHistory demo_env array_world = JArr []
   \<and> as_HistoryData (loadHistory demo_env array_world) = None
   \<and> loadHistory demo_env array_world \<noteq> default_history"
  by (simp add: loadHistory_def array_world_def parse_empty_array as_HistoryData_def default_history_def)

lemma parse_garbage: "JSON_parse (js ''{oops'') = None"
  by (simp add: JSON_parse_def js_def is_json_ws_def emit_def starts_with_def scan_number_def
      scan_digits_def is_digit_def)

theorem loadHistory_default_or_parsed_witness:
  "files demo_world (HISTORY_FILE demo_env) = None
   \<and> loadHistory demo_env demo_world = default_history
   \<and> files garbage_world (HISTORY_FILE demo_env) = Some (js ''{oops'')
   \<and> JSON_parse (js ''{oops'') = None
   \<and> loadHistory demo_env garbage_world = default_history
   \<and> files array_world (HISTORY_FILE demo_env) = Some (js ''[]'')
   \<and> JSON_parse (js ''[]'') = Some (JArr [])
   \<and> loadHistory demo_env array_world = JArr []"
proof -
  have f1: "files demo_world (HISTORY_FILE demo_env) = None"
    by (simp add: demo_world_def demo_env_def js_def)
  have f2: "files garbage_world (HISTORY_FILE demo_env) = Some (js ''{oops'')"
    by (simp add: garbage_world_def)
  have f3: "files array_world (HISTORY_FILE demo_env) = Some (js ''[]'')"
    by (simp add: array_world_def)
  show ?thesis
    using loadHistory_default_or_parsed [of demo_world demo_env]
      loadHistory_default_or_parsed [of garbage_world demo_env]
      loadHistory_default_or_parsed [of array_world demo_env]
      f1 f2 f3 parse_garbage parse_empty_array
    by simp
qed

theorem saveHistory_then_loadHistory_witness:
  "well_formed demo_history \<and> writable demo_env (HISTORY_FILE demo_env)
   \<and> (\<exists>w'. saveHistory demo_env demo_history demo_world = (Inr (), w')
          \<and> as_HistoryData (loadHistory demo_env w') = Some demo_history)"
  using saveHistory_then_loadHistory [of demo_history demo_env demo_world]
  by (simp add: well_formed_def demo_history_def demo_env_def)

subsection \<open>The stream loop\<close>


lemma stream_loop_events:
  "\<forall>e\<in>set evs. choices e \<noteq> [] \<Longrightarrow>
   stream_loop (map Event evs) message w =
     (Inr (message @ concat (contributing_deltas evs)),
      w\<lparr>stdout := stdout w @ contributing_deltas evs\<rparr>)"
proof (induction evs arbitrary: message w)
  case Nil
  then show ?case by (simp add: contributing_deltas_def)
next
  case (Cons e evs)
  then obtain c cs where c: "choices e = c # cs" by (cases "choices e") auto
  from Cons have IH: "\<And>m v. stream_loop (map Event evs) m v =
     (Inr (m @ concat (contributing_deltas evs)), v\<lparr>stdout := stdout v @ contributing_deltas evs\<rparr>)"
    by simp
  show ?case
    by (cases "delta_content (delta c)")
       (simp_all add: c IH contributing_deltas_def stdout_write_def)
qed


lemma stream_loop_TypeError:
  "\<exists>e\<in>set evs. choices e = [] \<Longrightarrow>
   fst (stream_loop (map Event evs) message w) = Inl TypeError"
proof (induction evs arbitrary: message w)
  case Nil
  then show ?case by simp
next
  case (Cons e evs)
  show ?case
  proof (cases "choices e")
    case Nil
    then show ?thesis by simp
  next
    case (Cons c cs)
    with Cons.prems have "\<exists>e\<in>set evs. choices e = []" by auto
    then have "\<And>m v. fst (stream_loop (map Event evs) m v) = Inl TypeError"
      by (rule Cons.IH)
    then show ?thesis
      using Cons by (cases "delta_content (delta c)") simp_all
  qed
qed

subsection \<open>The LLM client\<close>

text \<open>
  C8. \<open>initializeClient\<close> fails, with \<open>InitializationError\<close>, exactly when the key is
  absent or empty; for every non-empty key it succeeds without looking at the key any
  further: it returns the handle bound to that key and stores it in the module variable.
\<close>

theorem initializeClient_fails_iff_no_key:
  "(fst (initializeClient key w) = Inl InitializationError \<longleftrightarrow> key = None \<or> key = Some [])
   \<and> ((\<exists>e. fst (initializeClient key w) = Inl e) \<longleftrightarrow> key = None \<or> key = Some [])
   \<and> (\<forall>k. k \<noteq> [] \<longrightarrow>
         initializeClient (Some k) w = (Inr \<lparr>apiKey = k\<rparr>, w\<lparr>openai := Some \<lparr>apiKey = k\<rparr>\<rparr>))"
  by (cases key) (auto simp: initializeClient_def)

theorem initializeClient_fails_iff_no_key_witness:
  "fst (initializeClient None demo_world) = Inl InitializationError
   \<and> fst (initializeClient (Some []) demo_world) = Inl InitializationError
   \<and> js ''sk-test'' \<noteq> []
   \<and> initializeClient (Some (js ''sk-test'')) demo_world =
       (Inr \<lparr>apiKey = js ''sk-test''\<rparr>, demo_world\<lparr>openai := Some \<lparr>apiKey = js ''sk-test''\<rparr>\<rparr>)"
  using initializeClient_fails_iff_no_key [of None demo_world]
    initializeClient_fails_iff_no_key [of "Some []" demo_world]
    initializeClient_fails_iff_no_key [of "Some (js ''sk-test'')" demo_world]
  by (simp add: js_def)

text \<open>
  C2. Once the client is initialised and the provider has answered with a stream of
  events that each carry at least one choice, \<open>sendMessageToChatGPTWithStream\<close> returns
  the concatenation, in arrival order, of the non-empty content deltas of the first
  choices, and has written exactly these deltas, one write each and in that order, to
  standard output; an event with an empty or absent content adds nothing to either.
  Nothing else changes but the record of the request sent.
\<close>

theorem sendMessage_concatenates_deltas:
  assumes "openai w = Some c"
    and "provider en \<lparr>req_messages = messages conversation, req_model = model,
                      req_temperature = temperature, req_stream = True\<rparr>
         = Completion (map Event evs)"
    and "\<forall>e\<in>set evs. choices e \<noteq> []"
  shows "sendMessageToChatGPTWithStream en conversation model temperature w =
           (Inr (concat (contributing_deltas evs)),
            w\<lparr>stdout := stdout w @ contributing_deltas evs,
              requests := requests w @ [\<lparr>req_messages = messages conversation, req_model = model,
                                         req_temperature = temperature, req_stream = True\<rparr>]\<rparr>)
         \<and> contributing_deltas evs =
             filter (\<lambda>d. d \<noteq> [])
               (List.map_filter (\<lambda>e. delta_content (delta (hd (choices e)))) evs)"
proof
  show "sendMessageToChatGPTWithStream en conversation model temperature w =
           (Inr (concat (contributing_deltas evs)),
            w\<lparr>stdout := stdout w @ contributing_deltas evs,
              requests := requests w @ [\<lparr>req_messages = messages conversation, req_model = model,
                                         req_temperature = temperature, req_stream = True\<rparr>]\<rparr>)"
    using assms by (simp add: sendMessageToChatGPTWithStream_def stream_loop_events)
  from assms(3)
  show "contributing_deltas evs =
     filter (\<lambda>d. d \<noteq> []) (List.map_filter (\<lambda>e. delta_content (delta (hd (choices e)))) evs)"
  proof (induction evs)
    case Nil
    then show ?case by (simp add: contributing_deltas_def)
  next
    case (Cons e evs)
    then obtain c cs where "choices e = c # cs" by (cases "choices e") auto
    with Cons show ?case
      by (cases "delta_content (delta c)")
         (simp_all add: contributing_deltas_def)
  qed
qed

theorem sendMessage_concatenates_deltas_witness:
  "sendMessageToChatGPTWithStream (demo_env\<lparr>provider := \<lambda>r. Completion (map Event hello_events)\<rparr>)
     \<lparr>messages = []\<rparr> (js ''gpt-4o-mini'') None initialized_world =
     (Inr (js ''Hello world''),
      initialized_world\<lparr>stdout := [js ''He'', js ''llo'', js '' world''],
        requests := [\<lparr>req_messages = [], req_model = js ''gpt-4o-mini'',
                      req_temperature = None, req_stream = True\<rparr>]\<rparr>)"
proof -
  have "\<forall>e\<in>set hello_events. choices e \<noteq> []"
    by (simp add: hello_events_def text_event_def)
  moreover have "contributing_deltas hello_events = [js ''He'', js ''llo'', js '' world'']"
    by (simp add: contributing_deltas_def hello_events_def text_event_def js_def)
  moreover have "stdout initialized_world = [] \<and> requests initialized_world = []"
    by (simp add: initialized_world_def demo_world_def)
  ultimately show ?thesis
    using sendMessage_concatenates_deltas
      [of initialized_world "\<lparr>apiKey = js ''sk-test''\<rparr>"
          "demo_env\<lparr>provider := \<lambda>r. Completion (map Event hello_events)\<rparr>"
          "\<lparr>messages = []\<rparr>" "js ''gpt-4o-mini''" None hello_events]
    by (simp add: initialized_world_def js_def)
qed

text \<open>
  C9. The loop reads \<open>choices[0]\<close> unguarded. Once the client is initialised and the
  provider has answered with a stream of events, the call fails with a \<open>TypeError\<close>
  exactly when some event has an empty \<open>choices\<close>: such an event is never skipped, and the
  call returns a result precisely when every event carries at least one choice.
\<close>

theorem sendMessage_empty_choices_fails:
  assumes "openai w = Some c"
    and "provider en \<lparr>req_messages = messages conversation, req_model = model,
                      req_temperature = temperature, req_stream = True\<rparr>
         = Completion (map Event evs)"
  shows "(fst (sendMessageToChatGPTWithStream en conversation model temperature w) = Inl TypeError
            \<longleftrightarrow> (\<exists>e\<in>set evs. choices e = []))
         \<and> ((\<exists>m. fst (sendMessageToChatGPTWithStream en conversation model temperature w) = Inr m)
            \<longleftrightarrow> (\<forall>e\<in>set evs. choices e \<noteq> []))"
proof (cases "\<exists>e\<in>set evs. choices e = []")
  case True
  then have "fst (stream_loop (map Event evs) [] v) = Inl TypeError" for v
    by (rule stream_loop_TypeError)
  with True assms show ?thesis
    by (auto simp: sendMessageToChatGPTWithStream_def)
next
  case False
  then have "\<forall>e\<in>set evs. choices e \<noteq> []" by simp
  then have "stream_loop (map Event evs) [] v =
     (Inr ([] @ concat (contributing_deltas evs)), v\<lparr>stdout := stdout v @ contributing_deltas evs\<rparr>)" for v
    by (rule stream_loop_events)
  with False assms show ?thesis
    by (auto simp: sendMessageToChatGPTWithStream_def)
qed

theorem sendMessage_empty_choices_fails_witness:
  "fst (sendMessageToChatGPTWithStream
          (demo_env\<lparr>provider := \<lambda>r. Completion (map Event [text_event (Some (js ''He'')), \<lparr>choices = []\<rparr>])\<rparr>)
          \<lparr>messages = []\<rparr> (js ''gpt-4o-mini'') None initialized_world) = Inl TypeError
   \<and> (\<exists>m. fst (sendMessageToChatGPTWithStream
          (demo_env\<lparr>provider := \<lambda>r. Completion (map Event [text_event (Some (js ''He''))])\<rparr>)
          \<lparr>messages = []\<rparr> (js ''gpt-4o-mini'') None initialized_world) = Inr m)"
  using sendMessage_empty_choices_fails
      [of initialized_world "\<lparr>apiKey = js ''sk-test''\<rparr>"
          "demo_env\<lparr>provider := \<lambda>r. Completion (map Event [text_event (Some (js ''He'')), \<lparr>choices = []\<rparr>])\<rparr>"
          "\<lparr>messages = []\<rparr>" "js ''gpt-4o-mini''" None "[text_event (Some (js ''He'')), \<lparr>choices = []\<rparr>]"]
    sendMessage_empty_choices_fails
      [of initialized_world "\<lparr>apiKey = js ''sk-test''\<rparr>"
          "demo_env\<lparr>provider := \<lambda>r. Completion (map Event [text_event (Some (js ''He''))])\<rparr>"
          "\<lparr>messages = []\<rparr>" "js ''gpt-4o-mini''" None "[text_event (Some (js ''He''))]"]
  by (simp add: initialized_world_def text_event_def)

subsection \<open>The main flow\<close>

lemma stream_loop_frame:
  "stream_loop items m w = (r, w') \<Longrightarrow>
   files w' = files w \<and> stderr w' = stderr w \<and> requests w' = requests w \<and> openai w' = openai w"
proof (induction items m w rule: stream_loop.induct)
  case (1 message w)
  then show ?case by auto
next
  case (2 rest message w)
  then show ?case by auto
next
  case (3 e rest message w)
  then show ?case
    by (auto simp: stdout_write_def split: list.splits option.splits if_splits)
qed

lemma sendMessage_frame:
  assumes "sendMessageToChatGPTWithStream en conv model temp w = (r, w')" "openai w = Some c"
  shows "files w' = files w \<and> stderr w' = stderr w
     \<and> requests w' = requests w @ [\<lparr>req_messages = messages conv, req_model = model,
                                      req_temperature = temp, req_stream = True\<rparr>]"
proof (cases "provider en \<lparr>req_messages = messages conv, req_model = model,
                            req_temperature = temp, req_stream = True\<rparr>")
  case (Rejected err)
  with assms show ?thesis
    by (auto simp: sendMessageToChatGPTWithStream_def console_log_def)
next
  case (Completion items)
  with assms have "stream_loop items []
      (w\<lparr>requests := requests w @ [\<lparr>req_messages = messages conv, req_model = model,
                                      req_temperature = temp, req_stream = True\<rparr>]\<rparr>) = (r, w')"
    by (simp add: sendMessageToChatGPTWithStream_def)
  from stream_loop_frame [OF this] show ?thesis by simp
qed

lemma those_map_set:
  "those (map f vs) = Some ss \<Longrightarrow> \<forall>s\<in>set ss. \<exists>v\<in>set vs. f v = Some s"
proof (induction vs arbitrary: ss)
  case Nil
  then show ?case by simp
next
  case (Cons v vs)
  from Cons.prems obtain x z where x: "f v = Some x" "those (map f vs) = Some z" "ss = x # z"
    by (auto split: option.splits)
  from Cons.IH [OF x(2)] x(1,3) show ?case by fastforce
qed

lemma as_SessionRecord_safe: "as_SessionRecord v = Some s \<Longrightarrow> \<bar>id' s\<bar> \<le> 9007199254740991"
  by (auto simp: as_SessionRecord_def as_integer_def bind_eq_Some_conv
      split: jsval.splits if_splits)

lemma as_HistoryData_well_formed: "as_HistoryData v = Some h \<Longrightarrow> well_formed h"
proof -
  assume a: "as_HistoryData v = Some h"
  then obtain kvs vs where "those (map as_SessionRecord vs) = Some (sessions h)"
    by (auto simp: as_HistoryData_def as_array_def bind_eq_Some_conv split: jsval.splits if_splits)
  from those_map_set [OF this] show ?thesis
    by (auto simp: well_formed_def dest: as_SessionRecord_safe)
qed

lemma stringify_history_Some: "\<exists>doc. JSON_stringify (history_js h) = Some doc"
  by (simp add: JSON_stringify_def history_js_def)

lemma history_text_parses:
  "well_formed h \<Longrightarrow> \<exists>v. JSON_parse (history_text h) = Some v \<and> as_HistoryData v = Some h"
  using stringify_history_parses [of h] by (auto simp: history_text_def)

lemma saveHistory_eq:
  "saveHistory en h w =
     (if writable en (HISTORY_FILE en)
      then (Inr (), w\<lparr>files := (files w)(HISTORY_FILE en \<mapsto> history_text h)\<rparr>)
      else (Inl HistorySaveError, w))"
  using stringify_history_Some [of h]
  by (auto simp: saveHistory_def writeFileSync_def history_text_def)

lemma main_select_text_eq:
  "\<exists>w'. main_select_text en h w = (selector_of en, h\<lparr>rawTextsUsed := texts_after en (rawTextsUsed h)\<rparr>, w')
      \<and> files w' = files w \<and> stderr w' = stderr w \<and> requests w' = requests w \<and> openai w' = openai w"
  by (simp add: main_select_text_def selector_of_def texts_after_def ask_def Let_def)

lemma console_log_frame [simp]:
  "files (console_log s w) = files w" "stderr (console_log s w) = stderr w"
  "requests (console_log s w) = requests w" "openai (console_log s w) = openai w"
  by (simp_all add: console_log_def)

lemma console_error_frame [simp]:
  "files (console_error d w) = files w" "stderr (console_error d w) = stderr w @ [d]"
  "requests (console_error d w) = requests w"
  by (simp_all add: console_error_def)

lemma main_ask_paths_frame [simp]:
  "files (main_ask_paths w) = files w" "stderr (main_ask_paths w) = stderr w"
  "requests (main_ask_paths w) = requests w" "openai (main_ask_paths w) = openai w"
  by (simp_all add: main_ask_paths_def ask_def)

lemma loadHistory_cong: "files w' = files w \<Longrightarrow> loadHistory en w' = loadHistory en w"
  by (simp add: loadHistory_def)

lemma loadHistory_console_log [simp]: "loadHistory en (console_log s w) = loadHistory en w"
  by (simp add: loadHistory_def)

lemma files_after_key_console_log [simp]:
  "files_after_key en h (console_log s w) = files_after_key en h w"
  by (simp add: files_after_key_def)

lemma main_check_api_key_eq:
  "\<exists>w'. main_check_api_key en h w =
      (if falsy_key h \<and> \<not> writable en (HISTORY_FILE en) then Inl HistorySaveError
       else Inr (h\<lparr>openAiApiKey := key_after en h\<rparr>), w')
     \<and> files w' = (if writable en (HISTORY_FILE en) then files_after_key en h w else files w)
     \<and> stderr w' = stderr w \<and> requests w' = requests w"
  by (auto simp: main_check_api_key_def falsy_key_def key_after_def files_after_key_def
      saveHistory_eq ask_def Let_def)

lemma initializeClient_eq:
  "\<exists>w'. initializeClient key w =
      (if key = None \<or> key = Some [] then Inl InitializationError else Inr \<lparr>apiKey = the key\<rparr>, w')
     \<and> files w' = files w \<and> stderr w' = stderr w \<and> requests w' = requests w
     \<and> (key \<noteq> None \<and> key \<noteq> Some [] \<longrightarrow> openai w' \<noteq> None)"
  by (cases key) (auto simp: initializeClient_def)

lemma key_after_not_None: "key_after en h \<noteq> None"
  by (auto simp: key_after_def falsy_key_def)

lemma main_cases [consumes 1, case_names key_not_saved no_key read1 read2 llm save_failed completed]:
  assumes d: "as_HistoryData (loadHistory en w) = Some h"
  obtains
    (key_not_saved) "falsy_key h" "\<not> writable en (HISTORY_FILE en)"
      "fst (main en w) = Inl HistorySaveError" "files (snd (main en w)) = files w"
      "stderr (snd (main en w)) = stderr w" "requests (snd (main en w)) = requests w"
  | (no_key) "falsy_key h \<longrightarrow> writable en (HISTORY_FILE en)" "key_after en h = Some []"
      "fst (main en w) = Inl InitializationError"
      "files (snd (main en w)) = files_after_key en h w"
      "stderr (snd (main en w)) = stderr w" "requests (snd (main en w)) = requests w"
  | (read1) "falsy_key h \<longrightarrow> writable en (HISTORY_FILE en)" "key_after en h \<noteq> Some []"
      "files_after_key en h w (path_resolve en (answer_filePath1 en)) = None"
      "fst (main en w) = Inr ()" "files (snd (main en w)) = files_after_key en h w"
      "stderr (snd (main en w)) = stderr w @ [Could_not_read_first_file]"
      "requests (snd (main en w)) = requests w"
  | (read2) f1 where "falsy_key h \<longrightarrow> writable en (HISTORY_FILE en)" "key_after en h \<noteq> Some []"
      "files_after_key en h w (path_resolve en (answer_filePath1 en)) = Some f1"
      "files_after_key en h w (path_resolve en (answer_filePath2 en)) = None"
      "fst (main en w) = Inr ()" "files (snd (main en w)) = files_after_key en h w"
      "stderr (snd (main en w)) = stderr w @ [Could_not_read_second_file]"
      "requests (snd (main en w)) = requests w"
  | (llm) f1 f2 e where "falsy_key h \<longrightarrow> writable en (HISTORY_FILE en)" "key_after en h \<noteq> Some []"
      "files_after_key en h w (path_resolve en (answer_filePath1 en)) = Some f1"
      "files_after_key en h w (path_resolve en (answer_filePath2 en)) = Some f2"
      "fst (main en w) = Inr ()" "files (snd (main en w)) = files_after_key en h w"
      "stderr (snd (main en w)) = stderr w @ [Error_calling_LLM e]"
      "requests (snd (main en w)) = requests w @ [sent_request en f1 f2]"
      "\<exists>v. openai v \<noteq> None \<and>
         fst (sendMessageToChatGPTWithStream en (main_conversation f1 f2 (answer_taskPrompt en))
                (js ''gpt-4o-mini'') (Some (7 / 10)) v) = Inl e"
  | (save_failed) f1 f2 where "\<not> falsy_key h" "\<not> writable en (HISTORY_FILE en)"
      "files_after_key en h w (path_resolve en (answer_filePath1 en)) = Some f1"
      "files_after_key en h w (path_resolve en (answer_filePath2 en)) = Some f2"
      "fst (main en w) = Inl HistorySaveError" "files (snd (main en w)) = files w"
      "stderr (snd (main en w)) = stderr w"
      "requests (snd (main en w)) = requests w @ [sent_request en f1 f2]"
  | (completed) f1 f2 where "writable en (HISTORY_FILE en)" "key_after en h \<noteq> Some []"
      "files_after_key en h w (path_resolve en (answer_filePath1 en)) = Some f1"
      "files_after_key en h w (path_resolve en (answer_filePath2 en)) = Some f2"
      "fst (main en w) = Inr ()"
      "files (snd (main en w)) =
         (files_after_key en h w)(HISTORY_FILE en \<mapsto> history_text (completed_history en h))"
      "stderr (snd (main en w)) = stderr w"
      "requests (snd (main en w)) = requests w @ [sent_request en f1 f2]"
proof -
  let ?w1 = "console_log (js ''Welcome to the File Comparison + LLM CLI!\<newline>'') w"
  let ?h2 = "h\<lparr>openAiApiKey := key_after en h\<rparr>"
  let ?fk = "files_after_key en h w"
  from main_check_api_key_eq [of en h ?w1] obtain w2 where
    k: "main_check_api_key en h ?w1 =
         (if falsy_key h \<and> \<not> writable en (HISTORY_FILE en) then Inl HistorySaveError else Inr ?h2, w2)"
    and w2: "files w2 = (if writable en (HISTORY_FILE en) then ?fk else files w)"
      "stderr w2 = stderr w" "requests w2 = requests w"
    unfolding files_after_key_console_log console_log_frame by blast
  show ?thesis
  proof (cases "falsy_key h \<and> \<not> writable en (HISTORY_FILE en)")
    case True
    have m: "main en w = (Inl HistorySaveError, w2)"
      by (simp add: main_def Let_def d k True)
    show ?thesis
      by (rule key_not_saved) (simp_all add: m w2 True)
  next
    case False
    then have wr: "falsy_key h \<longrightarrow> writable en (HISTORY_FILE en)" by blast
    from False k have k': "main_check_api_key en h ?w1 = (Inr ?h2, w2)" by simp
    from wr w2(1) have fw2: "files w2 = ?fk" by (auto simp: files_after_key_def)
    from initializeClient_eq [of "key_after en h" w2] obtain w3 where
      i: "initializeClient (key_after en h) w2 =
           (if key_after en h = Some [] then Inl InitializationError
            else Inr \<lparr>apiKey = the (key_after en h)\<rparr>, w3)"
      and w3: "files w3 = ?fk" "stderr w3 = stderr w" "requests w3 = requests w"
        "key_after en h \<noteq> Some [] \<longrightarrow> openai w3 \<noteq> None"
      unfolding fw2 w2 using key_after_not_None [of en h] by auto
    show ?thesis
    proof (cases "key_after en h = Some []")
      case True
      with i have i': "initializeClient (key_after en h) w2 = (Inl InitializationError, w3)"
        by simp
      have m: "main en w = (Inl InitializationError, w3)"
        by (simp add: main_def Let_def d k' i')
      show ?thesis
        by (rule no_key) (simp_all add: m w3 True wr)
    next
      case nk: False
      with i have i': "initializeClient (key_after en h) w2 = (Inr \<lparr>apiKey = the (key_after en h)\<rparr>, w3)"
        by simp
      from nk w3 obtain c where c: "openai w3 = Some c" by auto
      from main_select_text_eq [of en ?h2 w3] obtain w4 where
        s: "main_select_text en ?h2 w3 =
             (selector_of en, ?h2\<lparr>rawTextsUsed := texts_after en (rawTextsUsed ?h2)\<rparr>, w4)"
        and w4: "files w4 = ?fk" "stderr w4 = stderr w" "requests w4 = requests w" "openai w4 = Some c"
        unfolding w3 c by blast
      let ?w5 = "main_ask_paths w4"
      show ?thesis
      proof (cases "?fk (path_resolve en (answer_filePath1 en))")
        case None
        have m: "main en w = (Inr (), console_error Could_not_read_first_file ?w5)"
          by (simp add: main_def Let_def d k' i' s w4 None)
        show ?thesis
          by (rule read1) (simp_all add: m w4 None wr nk)
      next
        case (Some f1)
        note f1 = this
        show ?thesis
        proof (cases "?fk (path_resolve en (answer_filePath2 en))")
          case None
          have m: "main en w = (Inr (), console_error Could_not_read_second_file ?w5)"
            by (simp add: main_def Let_def d k' i' s w4 f1 None)
          show ?thesis
            by (rule read2 [of f1]) (simp_all add: m w4 f1 None wr nk)
        next
          case (Some f2)
          note f2 = this
          let ?w6 = "console_log (js ''\<newline>--- LLM Response (streaming) ---\<newline>'') ?w5"
          let ?conv = "main_conversation f1 f2 (answer_taskPrompt en)"
          let ?send = "sendMessageToChatGPTWithStream en ?conv (js ''gpt-4o-mini'') (Some (7 / 10)) ?w6"
          obtain r7 w7 where l: "?send = (r7, w7)"
            by (cases ?send)
          have "openai ?w6 = Some c" using w4 by simp
          from sendMessage_frame [OF l this] w4
          have w7: "files w7 = ?fk" "stderr w7 = stderr w"
            "requests w7 = requests w @ [sent_request en f1 f2]"
            by (simp_all add: sent_request_def)
          show ?thesis
          proof (cases r7)
            case (Inl e)
            have m: "main en w = (Inr (), console_error (Error_calling_LLM e) w7)"
              by (simp add: main_def Let_def d k' i' s w4 f1 f2 l [unfolded Inl])
            have "openai ?w6 \<noteq> None \<and> fst ?send = Inl e"
              using w4 l Inl by simp
            then have ex: "\<exists>v. openai v \<noteq> None \<and>
                fst (sendMessageToChatGPTWithStream en ?conv (js ''gpt-4o-mini'') (Some (7 / 10)) v) = Inl e"
              by blast
            show ?thesis
              by (rule llm [of f1 f2 e]; (rule ex)?; simp add: m w7 f1 f2 wr nk)
          next
            case (Inr response)
            let ?w8 = "console_log (js ''\<newline>\<newline>--- LLM Response (complete) ---\<newline>'' @ js '' '' @ response) w7"
            show ?thesis
            proof (cases "writable en (HISTORY_FILE en)")
              case True
              have m: "main en w = (Inr (), console_log (js ''\<newline>Session saved. Goodbye!'')
                  (?w8\<lparr>files := (files ?w8)(HISTORY_FILE en \<mapsto> history_text (completed_history en h))\<rparr>))"
                by (simp add: main_def Let_def d k' i' s w4 f1 f2 l [unfolded Inr] saveHistory_eq True
                    main_new_session_def completed_history_def recorded_session_def)
              show ?thesis
                by (rule completed [of f1 f2]) (simp_all add: m w7 f1 f2 True nk)
            next
              case False
              with wr have nf: "\<not> falsy_key h" by blast
              then have fk: "?fk = files w" by (simp add: files_after_key_def)
              have m: "main en w = (Inl HistorySaveError, ?w8)"
                by (simp add: main_def Let_def d k' i' s w4 f1 f2 l [unfolded Inr] saveHistory_eq False)
              show ?thesis
                by (rule save_failed [of f1 f2]) (simp_all add: m w7(2,3) w7(1) [unfolded fk] f1 f2 False nf)
            qed
          qed
        qed
      qed
    qed
  qed
qed

lemma truthy_key_after: "\<not> falsy_key h \<Longrightarrow> key_after en h \<noteq> Some []"
  by (auto simp: key_after_def falsy_key_def)

lemma main_requests:
  assumes "as_HistoryData (loadHistory en w) = Some h"
  shows "requests (snd (main en w)) = requests w @ expected_requests en h w"
  using assms
proof (cases rule: main_cases)
  case key_not_saved
  then show ?thesis by (simp add: expected_requests_def)
next
  case no_key
  then show ?thesis by (simp add: expected_requests_def)
next
  case read1
  then show ?thesis by (simp add: expected_requests_def)
next
  case (read2 f1)
  then show ?thesis by (simp add: expected_requests_def)
next
  case (llm f1 f2 e)
  then show ?thesis by (auto simp: expected_requests_def)
next
  case (save_failed f1 f2)
  then show ?thesis by (simp add: expected_requests_def truthy_key_after)
next
  case (completed f1 f2)
  then show ?thesis by (simp add: expected_requests_def)
qed

lemma well_formed_completed:
  assumes "well_formed h" "int (length (sessions h)) < 9007199254740991"
  shows "well_formed (completed_history en h)"
  using assms by (auto simp: well_formed_def completed_history_def recorded_session_def)

lemma main_completed:
  assumes d: "as_HistoryData (loadHistory en w) = Some h"
    and r: "fst (main en w) = Inr ()"
    and e: "stderr (snd (main en w)) = stderr w"
    and n: "int (length (sessions h)) < 9007199254740991"
  shows "as_HistoryData (loadHistory en (snd (main en w))) = Some (completed_history en h)"
  using d
proof (cases rule: main_cases)
  case (completed f1 f2)
  from well_formed_completed [OF as_HistoryData_well_formed [OF d] n, of en]
  obtain v where "JSON_parse (history_text (completed_history en h)) = Some v"
    "as_HistoryData v = Some (completed_history en h)"
    using history_text_parses by blast
  with completed show ?thesis by (simp add: loadHistory_def)
qed (use r e in simp_all)

lemma sendMessage_succeeds:
  assumes "openai v \<noteq> None"
    and "provider en \<lparr>req_messages = messages conv, req_model = model,
                      req_temperature = temp, req_stream = True\<rparr> = Completion (map Event evs)"
    and "\<forall>e\<in>set evs. choices e \<noteq> []"
  shows "\<exists>m. fst (sendMessageToChatGPTWithStream en conv model temp v) = Inr m"
  using assms stream_loop_events [of evs]
  by (auto simp: sendMessageToChatGPTWithStream_def)

lemma main_completes:
  assumes d: "as_HistoryData (loadHistory en w) = Some h"
    and wr: "writable en (HISTORY_FILE en)"
    and nk: "key_after en h \<noteq> Some []"
    and f1: "files_after_key en h w (path_resolve en (answer_filePath1 en)) = Some f1"
    and f2: "files_after_key en h w (path_resolve en (answer_filePath2 en)) = Some f2"
    and p: "provider en (sent_request en f1 f2) = Completion (map Event evs)"
    and c: "\<forall>e\<in>set evs. choices e \<noteq> []"
  shows "fst (main en w) = Inr () \<and> stderr (snd (main en w)) = stderr w"
  using d
proof (cases rule: main_cases)
  case (llm g1 g2 e)
  with f1 f2 have g: "g1 = f1" "g2 = f2" by simp_all
  from llm(9) obtain v where v: "openai v \<noteq> None"
    "fst (sendMessageToChatGPTWithStream en (main_conversation f1 f2 (answer_taskPrompt en))
                (js ''gpt-4o-mini'') (Some (7 / 10)) v) = Inl e"
    unfolding g by blast
  from sendMessage_succeeds [OF v(1) p [unfolded sent_request_def] c] v(2)
  show ?thesis by simp
qed (use wr nk f1 f2 in simp_all)

lemma occurs_in_iff: "occurs_in s t \<longleftrightarrow> (\<exists>pre post. t = pre @ s @ post)"
proof (induction t)
  case Nil
  then show ?case by auto
next
  case (Cons c cs)
  have sw: "starts_with s (c # cs) \<longleftrightarrow> (\<exists>post. c # cs = s @ post)"
    unfolding starts_with_def
    by (metis append_eq_conv_conj append_take_drop_id)
  show ?case
  proof
    assume "occurs_in s (c # cs)"
    then consider "starts_with s (c # cs)" | "occurs_in s cs" by auto
    then show "\<exists>pre post. c # cs = pre @ s @ post"
    proof cases
      case 1
      with sw obtain post where "c # cs = [] @ s @ post" by auto
      then show ?thesis by blast
    next
      case 2
      with Cons obtain pre post where "cs = pre @ s @ post" by blast
      then have "c # cs = (c # pre) @ s @ post" by simp
      then show ?thesis by blast
    qed
  next
    assume "\<exists>pre post. c # cs = pre @ s @ post"
    then obtain pre post where e: "c # cs = pre @ s @ post" by blast
    show "occurs_in s (c # cs)"
    proof (cases pre)
      case Nil
      with e have "\<exists>post. c # cs = s @ post" by auto
      with sw have "starts_with s (c # cs)" by blast
      then show ?thesis by simp
    next
      case (Cons p ps)
      with e have "cs = ps @ s @ post" by simp
      with Cons.IH show ?thesis by auto
    qed
  qed
qed

lemma trim_demo_key: "trim (js '' sk-test '') = js ''sk-test''"
  by (simp add: trim_def js_def is_js_space_def)

lemma demo_paths:
  "path_resolve demo_env (answer_filePath1 demo_env) \<noteq> HISTORY_FILE demo_env"
  "path_resolve demo_env (answer_filePath2 demo_env) \<noteq> HISTORY_FILE demo_env"
  "files demo_world (path_resolve demo_env (answer_filePath1 demo_env)) = Some (js ''alpha'')"
  "files demo_world (path_resolve demo_env (answer_filePath2 demo_env)) = Some (js ''beta'')"
  "files demo_world (HISTORY_FILE demo_env) = None"
  "writable demo_env (HISTORY_FILE demo_env)"
  by (simp_all add: demo_env_def demo_world_def js_def)

lemma demo_decode:
  "like_demo en \<Longrightarrow> as_HistoryData (loadHistory en demo_world)
     = Some \<lparr>openAiApiKey = None, rawTextsUsed = [], sessions = []\<rparr>"
  by (simp add: like_demo_def loadHistory_def demo_paths as_HistoryData_default)

lemma demo_completes:
  assumes "like_demo en"
  shows "fst (main en demo_world) = Inr () \<and> stderr (snd (main en demo_world)) = stderr demo_world"
proof (rule main_completes [OF demo_decode [OF assms]])
  let ?h = "\<lparr>openAiApiKey = None, rawTextsUsed = [], sessions = []\<rparr>"
  show "writable en (HISTORY_FILE en)"
    using assms by (simp add: like_demo_def demo_paths)
  have k: "key_after en ?h = Some (js ''sk-test'')"
    using assms trim_demo_key by (simp add: key_after_def falsy_key_def like_demo_def demo_env_def)
  then show "key_after en ?h \<noteq> Some []" by (simp add: js_def)
  show "files_after_key en ?h demo_world (path_resolve en (answer_filePath1 en)) = Some (js ''alpha'')"
    using assms demo_paths by (simp add: files_after_key_def like_demo_def)
  show "files_after_key en ?h demo_world (path_resolve en (answer_filePath2 en)) = Some (js ''beta'')"
    using assms demo_paths by (simp add: files_after_key_def like_demo_def)
  show "provider en (sent_request en (js ''alpha'') (js ''beta''))
      = Completion (map Event [text_event (Some (js ''diff '')), text_event (Some (js ''found''))])"
    using assms by (simp add: like_demo_def demo_env_def)
  show "\<forall>e\<in>set [text_event (Some (js ''diff '')), text_event (Some (js ''found''))]. choices e \<noteq> []"
    by (simp add: text_event_def)
qed

lemma like_demo_simps [simp]:
  "like_demo demo_env"
  "like_demo (demo_env\<lparr>answer_newSelectorText := x\<rparr>)"
  "like_demo (demo_env\<lparr>answer_selectedOrNew := y\<rparr>)"
  by (simp_all add: like_demo_def)

lemma main_select_text_sentinel:
  assumes "answer_selectedOrNew en = js ''Enter new text''"
  shows "fst (main_select_text en history w) = answer_newSelectorText en"
    and "fst (snd (main_select_text en history w)) =
      history\<lparr>rawTextsUsed :=
        (if trim (answer_newSelectorText en) \<noteq> [] then rawTextsUsed history @ [answer_newSelectorText en]
         else rawTextsUsed history)\<rparr>"
  using assms by (simp_all add: main_select_text_def Let_def)

text \<open>
  C6. When a run that started from the history \<open>h\<close> completes (\<open>main\<close> returns, no
  exception, no diagnostic), the history on disk holds the sessions of \<open>h\<close> followed by
  one new session: its \<open>id\<close> is the number of sessions of \<open>h\<close> plus one; its selector
  text, its two paths and its task prompt are the answers as they were typed, neither
  trimmed nor resolved; its timestamp is the string \<^verbatim>\<open>new Date().toISOString()\<close>
  returned. (The bound on the number of sessions keeps the new \<open>id\<close> an integer that a
  double holds exactly; a JavaScript array is shorter than that.)
\<close>

theorem recorded_session_id:
  assumes "as_HistoryData (loadHistory en w) = Some h"
    and "fst (main en w) = Inr ()" and "stderr (snd (main en w)) = stderr w"
    and "int (length (sessions h)) < 9007199254740991"
  shows "\<exists>h'. as_HistoryData (loadHistory en (snd (main en w))) = Some h'
    \<and> sessions h' = sessions h @
        [\<lparr>id' = int (length (sessions h)) + 1,
          selectorText = (if answer_selectedOrNew en = js ''Enter new text''
                          then answer_newSelectorText en else answer_selectedOrNew en),
          filePath1 = answer_filePath1 en, filePath2 = answer_filePath2 en,
          taskPrompt = answer_taskPrompt en, timestamp = now_ISO en\<rparr>]"
  using main_completed [OF assms]
  by (simp add: completed_history_def recorded_session_def selector_of_def)

lemma two_sessions_decode:
  "as_HistoryData (loadHistory demo_env two_sessions_world) = Some two_sessions"
proof -
  have "well_formed two_sessions" by (simp add: well_formed_def two_sessions_def)
  from history_text_parses [OF this] show ?thesis
    by (auto simp: loadHistory_def two_sessions_world_def)
qed

lemma two_sessions_completes:
  "fst (main demo_env two_sessions_world) = Inr ()
   \<and> stderr (snd (main demo_env two_sessions_world)) = stderr two_sessions_world"
proof (rule main_completes [OF two_sessions_decode])
  have nf: "\<not> falsy_key two_sessions" by (simp add: falsy_key_def two_sessions_def js_def)
  show "writable demo_env (HISTORY_FILE demo_env)" by (rule demo_paths)
  show "key_after demo_env two_sessions \<noteq> Some []" using nf by (rule truthy_key_after)
  show "files_after_key demo_env two_sessions two_sessions_world
          (path_resolve demo_env (answer_filePath1 demo_env)) = Some (js ''alpha'')"
    using nf demo_paths by (simp add: files_after_key_def two_sessions_world_def)
  show "files_after_key demo_env two_sessions two_sessions_world
          (path_resolve demo_env (answer_filePath2 demo_env)) = Some (js ''beta'')"
    using nf demo_paths by (simp add: files_after_key_def two_sessions_world_def)
  show "provider demo_env (sent_request demo_env (js ''alpha'') (js ''beta''))
      = Completion (map Event [text_event (Some (js ''diff '')), text_event (Some (js ''found''))])"
    by (simp add: demo_env_def)
  show "\<forall>e\<in>set [text_event (Some (js ''diff '')), text_event (Some (js ''found''))]. choices e \<noteq> []"
    by (simp add: text_event_def)
qed

theorem recorded_session_id_witness:
  "as_HistoryData (loadHistory demo_env two_sessions_world) = Some two_sessions
   \<and> fst (main demo_env two_sessions_world) = Inr ()
   \<and> stderr (snd (main demo_env two_sessions_world)) = stderr two_sessions_world
   \<and> length (sessions two_sessions) = 2
   \<and> (\<exists>h'. as_HistoryData (loadHistory demo_env (snd (main demo_env two_sessions_world))) = Some h'
        \<and> sessions h' = sessions two_sessions @
            [\<lparr>id' = 3, selectorText = js ''demo'', filePath1 = js ''foo.txt'', filePath2 = js ''bar.txt'',
              taskPrompt = [], timestamp = js ''2024-05-01T12:00:00.000Z''\<rparr>])"
proof -
  have n: "length (sessions two_sessions) = 2" by (simp add: two_sessions_def)
  have a: "answer_selectedOrNew demo_env = js ''Enter new text''"
    "answer_newSelectorText demo_env = js ''demo''" "answer_filePath1 demo_env = js ''foo.txt''"
    "answer_filePath2 demo_env = js ''bar.txt''" "answer_taskPrompt demo_env = []"
    "now_ISO demo_env = js ''2024-05-01T12:00:00.000Z''"
    by (simp_all add: demo_env_def)
  show ?thesis
    using recorded_session_id [of demo_env two_sessions_world two_sessions]
      two_sessions_decode two_sessions_completes
    by (simp add: n a)
qed

text \<open>
  C7. When the sentinel is chosen, the entered text is the selector text. If its trimmed
  form is not empty, step 4 appends exactly that one entry to \<open>rawTextsUsed\<close>, after the
  entries that were there, which keep their order; if it trims to empty, \<open>rawTextsUsed\<close>
  stays as it was. When the run completes, the saved history has this list, and the
  session recorded has the entered text as its \<open>selectorText\<close>, in both cases.
\<close>

theorem sentinel_text_appended_when_not_blank:
  assumes "answer_selectedOrNew en = js ''Enter new text''"
  shows "fst (main_select_text en history w) = answer_newSelectorText en
    \<and> fst (snd (main_select_text en history w)) =
        history\<lparr>rawTextsUsed :=
          (if trim (answer_newSelectorText en) \<noteq> []
           then rawTextsUsed history @ [answer_newSelectorText en] else rawTextsUsed history)\<rparr>
    \<and> (\<forall>h. as_HistoryData (loadHistory en w) = Some h \<and> fst (main en w) = Inr ()
            \<and> stderr (snd (main en w)) = stderr w \<and> int (length (sessions h)) < 9007199254740991
         \<longrightarrow> (\<exists>h'. as_HistoryData (loadHistory en (snd (main en w))) = Some h'
                \<and> rawTextsUsed h' =
                    (if trim (answer_newSelectorText en) \<noteq> []
                     then rawTextsUsed h @ [answer_newSelectorText en] else rawTextsUsed h)
                \<and> selectorText (last (sessions h')) = answer_newSelectorText en))"
proof (intro conjI allI impI)
  show "fst (main_select_text en history w) = answer_newSelectorText en"
    by (rule main_select_text_sentinel [OF assms])
  show "fst (snd (main_select_text en history w)) =
        history\<lparr>rawTextsUsed :=
          (if trim (answer_newSelectorText en) \<noteq> []
           then rawTextsUsed history @ [answer_newSelectorText en] else rawTextsUsed history)\<rparr>"
    by (rule main_select_text_sentinel [OF assms])
next
  fix h
  assume c: "as_HistoryData (loadHistory en w) = Some h \<and> fst (main en w) = Inr ()
            \<and> stderr (snd (main en w)) = stderr w \<and> int (length (sessions h)) < 9007199254740991"
  then have "as_HistoryData (loadHistory en (snd (main en w))) = Some (completed_history en h)"
    by (intro main_completed) simp_all
  with assms show "\<exists>h'. as_HistoryData (loadHistory en (snd (main en w))) = Some h'
                \<and> rawTextsUsed h' =
                    (if trim (answer_newSelectorText en) \<noteq> []
                     then rawTextsUsed h @ [answer_newSelectorText en] else rawTextsUsed h)
                \<and> selectorText (last (sessions h')) = answer_newSelectorText en"
    by (simp add: completed_history_def recorded_session_def selector_of_def texts_after_def)
qed

lemma blank_trims: "trim (js ''   '') = []" "trim (js ''demo'') = js ''demo''"
  "trim (js ''  demo '') = js ''demo''"
  by (simp_all add: trim_def js_def is_js_space_def)

theorem sentinel_text_appended_when_not_blank_witness:
  "answer_selectedOrNew demo_env = js ''Enter new text''
   \<and> fst (main_select_text demo_env demo_history demo_world) = js ''demo''
   \<and> rawTextsUsed (fst (snd (main_select_text demo_env demo_history demo_world))) = [js ''demo'', js ''demo'']
   \<and> answer_selectedOrNew blank_env = js ''Enter new text''
   \<and> fst (main_select_text blank_env demo_history demo_world) = js ''   ''
   \<and> rawTextsUsed (fst (snd (main_select_text blank_env demo_history demo_world))) = [js ''demo'']
   \<and> (\<exists>h'. as_HistoryData (loadHistory blank_env (snd (main blank_env demo_world))) = Some h'
          \<and> rawTextsUsed h' = [] \<and> selectorText (last (sessions h')) = js ''   '')"
proof -
  have s: "answer_selectedOrNew demo_env = js ''Enter new text''"
    "answer_selectedOrNew blank_env = js ''Enter new text''"
    "answer_newSelectorText demo_env = js ''demo''" "answer_newSelectorText blank_env = js ''   ''"
    by (simp_all add: demo_env_def blank_env_def)
  have l: "like_demo blank_env" by (simp add: blank_env_def)
  note d = demo_decode [OF l] and c = demo_completes [OF l]
  have ne: "js ''demo'' \<noteq> []" by (simp add: js_def)
  from sentinel_text_appended_when_not_blank [OF s(1), of demo_history demo_world]
    sentinel_text_appended_when_not_blank [OF s(2), of demo_history demo_world]
  show ?thesis
    using d c by (simp add: s blank_trims demo_history_def ne)
qed

text \<open>
  C10. When the sentinel is chosen and the entered text does not trim to empty, the
  selector text and the entry appended to \<open>rawTextsUsed\<close> are the entered text itself,
  with its surrounding white space; \<open>trim\<close> is used for the test only. The same holds for
  the history that a completed run saves: the last raw text and the \<open>selectorText\<close> of
  the recorded session are the entered text. Where the entered text differs from its
  trimmed form, neither of the two values is the trimmed form.
\<close>

theorem sentinel_text_kept_untrimmed:
  assumes "answer_selectedOrNew en = js ''Enter new text''"
    and "trim (answer_newSelectorText en) \<noteq> []"
  shows "fst (main_select_text en history w) = answer_newSelectorText en
    \<and> rawTextsUsed (fst (snd (main_select_text en history w)))
        = rawTextsUsed history @ [answer_newSelectorText en]
    \<and> (\<forall>h. as_HistoryData (loadHistory en w) = Some h \<and> fst (main en w) = Inr ()
            \<and> stderr (snd (main en w)) = stderr w \<and> int (length (sessions h)) < 9007199254740991
         \<longrightarrow> (\<exists>h'. as_HistoryData (loadHistory en (snd (main en w))) = Some h'
                \<and> rawTextsUsed h' = rawTextsUsed h @ [answer_newSelectorText en]
                \<and> selectorText (last (sessions h')) = answer_newSelectorText en))
    \<and> (answer_newSelectorText en \<noteq> trim (answer_newSelectorText en) \<longrightarrow>
          fst (main_select_text en history w) \<noteq> trim (answer_newSelectorText en)
          \<and> last (rawTextsUsed (fst (snd (main_select_text en history w))))
              \<noteq> trim (answer_newSelectorText en))"
proof (intro conjI allI impI)
  show "fst (main_select_text en history w) = answer_newSelectorText en"
    by (rule main_select_text_sentinel [OF assms(1)])
  show "rawTextsUsed (fst (snd (main_select_text en history w)))
        = rawTextsUsed history @ [answer_newSelectorText en]"
    using assms(2) by (simp add: main_select_text_sentinel [OF assms(1)])
  assume "answer_newSelectorText en \<noteq> trim (answer_newSelectorText en)"
  then show "fst (main_select_text en history w) \<noteq> trim (answer_newSelectorText en)"
    and "last (rawTextsUsed (fst (snd (main_select_text en history w))))
              \<noteq> trim (answer_newSelectorText en)"
    using assms(2) by (simp_all add: main_select_text_sentinel [OF assms(1)])
next
  fix h
  assume c: "as_HistoryData (loadHistory en w) = Some h \<and> fst (main en w) = Inr ()
            \<and> stderr (snd (main en w)) = stderr w \<and> int (length (sessions h)) < 9007199254740991"
  then have "as_HistoryData (loadHistory en (snd (main en w))) = Some (completed_history en h)"
    by (intro main_completed) simp_all
  with assms show "\<exists>h'. as_HistoryData (loadHistory en (snd (main en w))) = Some h'
                \<and> rawTextsUsed h' = rawTextsUsed h @ [answer_newSelectorText en]
                \<and> selectorText (last (sessions h')) = answer_newSelectorText en"
    by (simp add: completed_history_def recorded_session_def selector_of_def texts_after_def)
qed

theorem sentinel_text_kept_untrimmed_witness:
  "answer_selectedOrNew spaced_env = js ''Enter new text''
   \<and> answer_newSelectorText spaced_env = js ''  demo ''
   \<and> trim (js ''  demo '') = js ''demo''
   \<and> fst (main_select_text spaced_env demo_history demo_world) = js ''  demo ''
   \<and> rawTextsUsed (fst (snd (main_select_text spaced_env demo_history demo_world)))
       = [js ''demo'', js ''  demo '']
   \<and> (\<exists>h'. as_HistoryData (loadHistory spaced_env (snd (main spaced_env demo_world))) = Some h'
          \<and> rawTextsUsed h' = [js ''  demo ''] \<and> selectorText (last (sessions h')) = js ''  demo '')"
proof -
  have s: "answer_selectedOrNew spaced_env = js ''Enter new text''"
    "answer_newSelectorText spaced_env = js ''  demo ''"
    by (simp_all add: demo_env_def spaced_env_def)
  have ne: "trim (answer_newSelectorText spaced_env) \<noteq> []"
    unfolding s blank_trims by (simp add: js_def)
  have l: "like_demo spaced_env" by (simp add: spaced_env_def)
  note d = demo_decode [OF l] and c = demo_completes [OF l]
  from sentinel_text_kept_untrimmed [OF s(1) ne, of demo_history demo_world]
  show ?thesis
    using d c by (simp add: s blank_trims demo_history_def)
qed


lemma reordered_tokens:
  "tokenize 0 reordered_text = Some [LBrace, TString (js ''sessions''), Colon, LBracket, RBracket, Comma,
       TString (js ''rawTextsUsed''), Colon, LBracket, RBracket, RBrace]"
  by (simp add: reordered_text_def js_def is_json_ws_def emit_def cons_result_def)

lemma reordered_parse:
  "JSON_parse reordered_text = Some (JObj [(js ''sessions'', JArr []), (js ''rawTextsUsed'', JArr [])])"
  by (simp add: JSON_parse_def reordered_tokens start_value_def put_def js_def)

lemma reordered_decode:
  "as_HistoryData (JObj [(js ''sessions'', JArr []), (js ''rawTextsUsed'', JArr [])])
     = Some \<lparr>openAiApiKey = None, rawTextsUsed = [], sessions = []\<rparr>"
  by (simp add: as_HistoryData_def property_def as_optional_string_def as_array_def js_def)

lemma after_key_decode:
  assumes d: "as_HistoryData (loadHistory en w) = Some h"
    and f: "files w' = files_after_key en h w"
  shows "as_HistoryData (loadHistory en w') = Some (h\<lparr>openAiApiKey := key_after en h\<rparr>)"
proof (cases "falsy_key h")
  case True
  let ?h1 = "h\<lparr>openAiApiKey := key_after en h\<rparr>"
  from as_HistoryData_well_formed [OF d] have "well_formed ?h1" by (simp add: well_formed_def)
  from history_text_parses [OF this] obtain v where
    "JSON_parse (history_text ?h1) = Some v" "as_HistoryData v = Some ?h1" by blast
  with True f show ?thesis by (simp add: loadHistory_def files_after_key_def)
next
  case False
  with f have "files w' = files w" by (simp add: files_after_key_def)
  from loadHistory_cong [OF this] d False show ?thesis by (simp add: key_after_def)
qed

text \<open>
  C4. Let the loaded history \<open>h\<close> have the declared shape, and let one of the two input
  paths resolve to a file, other than the history file, that cannot be read. Then the run
  records no session and sends no request. No file other than the history file changes.
  The history read back from disk after the run is \<open>h\<close>, but for the key: the key is the
  trimmed answer to the key prompt when the loaded key was missing or empty and the
  history file could be written (the save of step 2), and the loaded key otherwise. With
  a usable key in \<open>h\<close> the run returns and no file changes at all; without one it returns
  unless the save of step 2 or the initialisation of the client throws. A run that
  returns has printed one of the two diagnostics of step 6.
\<close>

theorem read_failure_saves_nothing:
  assumes d: "as_HistoryData (loadHistory en w) = Some h"
    and f: "\<exists>p. (p = path_resolve en (answer_filePath1 en) \<or> p = path_resolve en (answer_filePath2 en))
              \<and> files w p = None \<and> p \<noteq> HISTORY_FILE en"
  shows "(\<forall>q. q \<noteq> HISTORY_FILE en \<longrightarrow> files (snd (main en w)) q = files w q)
    \<and> as_HistoryData (loadHistory en (snd (main en w))) =
        Some (h\<lparr>openAiApiKey :=
                 (if (openAiApiKey h = None \<or> openAiApiKey h = Some []) \<and> writable en (HISTORY_FILE en)
                  then Some (trim (answer_apiKey en)) else openAiApiKey h)\<rparr>)
    \<and> requests (snd (main en w)) = requests w
    \<and> fst (main en w) =
        (if openAiApiKey h \<noteq> None \<and> openAiApiKey h \<noteq> Some [] then Inr ()
         else if \<not> writable en (HISTORY_FILE en) then Inl HistorySaveError
         else if trim (answer_apiKey en) = [] then Inl InitializationError
         else Inr ())
    \<and> (fst (main en w) = Inr () \<longrightarrow>
          stderr (snd (main en w)) = stderr w @ [Could_not_read_first_file]
          \<or> stderr (snd (main en w)) = stderr w @ [Could_not_read_second_file])
    \<and> (openAiApiKey h \<noteq> None \<and> openAiApiKey h \<noteq> Some [] \<longrightarrow> files (snd (main en w)) = files w)"
proof -
  from f obtain p where p: "p = path_resolve en (answer_filePath1 en) \<or> p = path_resolve en (answer_filePath2 en)"
    "files w p = None" "p \<noteq> HISTORY_FILE en" by blast
  then have fk: "files_after_key en h w p = None"
    by (simp add: files_after_key_def)
  let ?key = "if (openAiApiKey h = None \<or> openAiApiKey h = Some []) \<and> writable en (HISTORY_FILE en)
              then Some (trim (answer_apiKey en)) else openAiApiKey h"
  have key: "falsy_key h \<longrightarrow> writable en (HISTORY_FILE en) \<Longrightarrow> key_after en h = ?key"
    by (auto simp: key_after_def falsy_key_def)
  have after: "as_HistoryData (loadHistory en (snd (main en w))) = Some (h\<lparr>openAiApiKey := ?key\<rparr>)
      \<and> (\<forall>q. q \<noteq> HISTORY_FILE en \<longrightarrow> files (snd (main en w)) q = files w q)
      \<and> (openAiApiKey h \<noteq> None \<and> openAiApiKey h \<noteq> Some [] \<longrightarrow> files (snd (main en w)) = files w)"
    if a: "files (snd (main en w)) = files_after_key en h w"
      and wr: "falsy_key h \<longrightarrow> writable en (HISTORY_FILE en)"
  proof -
    from after_key_decode [OF d a] key [OF wr]
    have "as_HistoryData (loadHistory en (snd (main en w))) = Some (h\<lparr>openAiApiKey := ?key\<rparr>)"
      by simp
    moreover from a have "\<forall>q. q \<noteq> HISTORY_FILE en \<longrightarrow> files (snd (main en w)) q = files w q"
      by (simp add: files_after_key_def)
    moreover from a have "openAiApiKey h \<noteq> None \<and> openAiApiKey h \<noteq> Some [] \<longrightarrow> files (snd (main en w)) = files w"
      by (simp add: files_after_key_def falsy_key_def)
    ultimately show ?thesis by blast
  qed
  have ka: "key_after en h = Some [] \<longleftrightarrow> falsy_key h \<and> trim (answer_apiKey en) = []"
    by (auto simp: key_after_def falsy_key_def)
  have fa: "falsy_key h \<longleftrightarrow> \<not> (openAiApiKey h \<noteq> None \<and> openAiApiKey h \<noteq> Some [])"
    by (auto simp: falsy_key_def)
  from d show ?thesis
  proof (cases rule: main_cases)
    case key_not_saved
    from loadHistory_cong [OF key_not_saved(4)] d
    have "as_HistoryData (loadHistory en (snd (main en w))) = Some (h\<lparr>openAiApiKey := ?key\<rparr>)"
      using key_not_saved(2) by simp
    with key_not_saved fa show ?thesis by simp
  next
    case no_key
    from after [OF no_key(4) no_key(1)] no_key ka fa show ?thesis by auto
  next
    case read1
    from after [OF read1(5) read1(1)] read1 ka fa show ?thesis by auto
  next
    case (read2 f1)
    from after [OF read2(6) read2(1)] read2 ka fa show ?thesis by auto
  next
    case (llm f1 f2 e)
    with p(1) fk show ?thesis by auto
  next
    case (save_failed f1 f2)
    with p(1) fk show ?thesis by auto
  next
    case (completed f1 f2)
    with p(1) fk show ?thesis by auto
  qed
qed

lemma missing_key: "trim (answer_apiKey missing_env) = js ''sk-test''"
proof -
  have "answer_apiKey missing_env = js '' sk-test ''" by (simp add: missing_env_def demo_env_def)
  then show ?thesis by (simp add: trim_demo_key)
qed

lemma reordered_run:
  "files reordered_world (HISTORY_FILE missing_env) = Some reordered_text"
  "as_HistoryData (loadHistory missing_env reordered_world)
     = Some \<lparr>openAiApiKey = None, rawTextsUsed = [], sessions = []\<rparr>"
  "files reordered_world (path_resolve missing_env (answer_filePath1 missing_env)) = None"
  "path_resolve missing_env (answer_filePath1 missing_env) \<noteq> HISTORY_FILE missing_env"
  "writable missing_env (HISTORY_FILE missing_env)"
  "files reordered_world (path_resolve missing_env (answer_filePath2 missing_env)) = Some (js ''beta'')"
  "path_resolve missing_env (answer_filePath2 missing_env) \<noteq> HISTORY_FILE missing_env"
  "stderr reordered_world = []" "requests reordered_world = []"
proof -
  show h: "files reordered_world (HISTORY_FILE missing_env) = Some reordered_text"
    by (simp add: reordered_world_def missing_env_def)
  then show "as_HistoryData (loadHistory missing_env reordered_world)
     = Some \<lparr>openAiApiKey = None, rawTextsUsed = [], sessions = []\<rparr>"
    by (simp add: loadHistory_def reordered_parse reordered_decode)
  show "files reordered_world (path_resolve missing_env (answer_filePath1 missing_env)) = None"
    "path_resolve missing_env (answer_filePath1 missing_env) \<noteq> HISTORY_FILE missing_env"
    "writable missing_env (HISTORY_FILE missing_env)"
    "files reordered_world (path_resolve missing_env (answer_filePath2 missing_env)) = Some (js ''beta'')"
    "path_resolve missing_env (answer_filePath2 missing_env) \<noteq> HISTORY_FILE missing_env"
    "stderr reordered_world = []" "requests reordered_world = []"
    by (simp_all add: reordered_world_def missing_env_def demo_env_def demo_world_def js_def)
qed

lemma first_read_fails:
  assumes "as_HistoryData (loadHistory en w) = Some h"
    and "fst (main en w) = Inr ()"
    and "files w (path_resolve en (answer_filePath1 en)) = None"
    and "path_resolve en (answer_filePath1 en) \<noteq> HISTORY_FILE en"
  shows "stderr (snd (main en w)) = stderr w @ [Could_not_read_first_file]"
proof -
  from assms(3,4) have fk: "files_after_key en h w (path_resolve en (answer_filePath1 en)) = None"
    by (simp add: files_after_key_def)
  from assms(1) show ?thesis
  proof (cases rule: main_cases)
    case read1
    then show ?thesis by simp
  qed (use fk assms(2) in simp_all)
qed

theorem read_failure_saves_nothing_witness:
  "files reordered_world (HISTORY_FILE missing_env) = Some reordered_text
   \<and> as_HistoryData (loadHistory missing_env reordered_world)
       = Some \<lparr>openAiApiKey = None, rawTextsUsed = [], sessions = []\<rparr>
   \<and> files reordered_world (path_resolve missing_env (answer_filePath1 missing_env)) = None
   \<and> path_resolve missing_env (answer_filePath1 missing_env) \<noteq> HISTORY_FILE missing_env
   \<and> fst (main missing_env reordered_world) = Inr ()
   \<and> stderr (snd (main missing_env reordered_world)) = [Could_not_read_first_file]
   \<and> as_HistoryData (loadHistory missing_env (snd (main missing_env reordered_world)))
       = Some \<lparr>openAiApiKey = Some (js ''sk-test''), rawTextsUsed = [], sessions = []\<rparr>
   \<and> files (snd (main missing_env reordered_world)) (path_resolve missing_env (answer_filePath2 missing_env))
       = Some (js ''beta'')
   \<and> requests (snd (main missing_env reordered_world)) = []"
proof -
  have f: "\<exists>p. (p = path_resolve missing_env (answer_filePath1 missing_env)
                \<or> p = path_resolve missing_env (answer_filePath2 missing_env))
              \<and> files reordered_world p = None \<and> p \<noteq> HISTORY_FILE missing_env"
    using reordered_run(3,4) by blast
  have ne: "js ''sk-test'' \<noteq> []" by (simp add: js_def)
  note t = read_failure_saves_nothing [OF reordered_run(2) f]
  from t have r: "fst (main missing_env reordered_world) = Inr ()"
    by (simp add: missing_key reordered_run(5) ne)
  from first_read_fails [OF reordered_run(2) r reordered_run(3,4)] t r reordered_run
  show ?thesis
    by (simp add: missing_key)
qed

lemma main_requests_independent:
  assumes "as_HistoryData (loadHistory en w) = Some h"
  shows "requests (snd (main (en\<lparr>answer_selectedOrNew := a, answer_newSelectorText := b\<rparr>) w))
   = requests (snd (main en w))"
proof -
  let ?en = "en\<lparr>answer_selectedOrNew := a, answer_newSelectorText := b\<rparr>"
  have l: "loadHistory ?en w = loadHistory en w" by (simp add: loadHistory_def)
  have ka: "key_after ?en h = key_after en h" by (simp add: key_after_def)
  have fk: "files_after_key ?en h w = files_after_key en h w"
    by (simp add: files_after_key_def ka)
  have sr: "sent_request ?en = sent_request en"
    by (simp add: sent_request_def fun_eq_iff)
  have "expected_requests ?en h w = expected_requests en h w"
    by (simp add: expected_requests_def ka fk sr cong: option.case_cong)
  with assms l show ?thesis by (simp add: main_requests)
qed

text \<open>
  C3, as amended. The conversation has exactly two messages: the fixed system message,
  and a user message with the text of file 1 after the label \<open>File 1 Content:\<close>, the text
  of file 2 after the label \<open>File 2 Content:\<close>, and \<open>Task: \<close> followed by the task prompt
  or, when that is empty, by the fallback sentence. For a loaded history of the declared
  shape, a run sends no request or one request; the messages of that request are this
  conversation for the task prompt and the texts read at the two paths (for a path other
  than the history file, the text the file had before the run). The selector text is no
  ingredient: with any other answers to the two selector prompts, the same requests are
  sent.
\<close>

theorem conversation_from_files_and_task:
  "messages (main_conversation fileContent1 fileContent2 task) =
     [\<lparr>role = System,
       content = js ''You are a helpful assistant that compares two files and provides insights.''\<rparr>,
      \<lparr>role = User,
       content = js ''\<newline>I have two files.\<newline>\<newline>File 1 Content:\<newline>'' @ fileContent1
         @ js ''\<newline>\<newline>File 2 Content:\<newline>'' @ fileContent2
         @ js ''\<newline>\<newline>Task: ''
         @ (if task = [] then js ''Compare and analyze the differences.'' else task)
         @ js ''\<newline>''\<rparr>]
   \<and> (\<forall>h. as_HistoryData (loadHistory en w) = Some h \<longrightarrow>
         (requests (snd (main en w)) = requests w
          \<or> (\<exists>f1 f2.
               (path_resolve en (answer_filePath1 en) \<noteq> HISTORY_FILE en
                  \<longrightarrow> files w (path_resolve en (answer_filePath1 en)) = Some f1)
               \<and> (path_resolve en (answer_filePath2 en) \<noteq> HISTORY_FILE en
                  \<longrightarrow> files w (path_resolve en (answer_filePath2 en)) = Some f2)
               \<and> requests (snd (main en w)) = requests w @
                   [\<lparr>req_messages = messages (main_conversation f1 f2 (answer_taskPrompt en)),
                     req_model = js ''gpt-4o-mini'', req_temperature = Some (7 / 10),
                     req_stream = True\<rparr>]))
         \<and> (\<forall>a b. requests (snd (main (en\<lparr>answer_selectedOrNew := a, answer_newSelectorText := b\<rparr>) w))
                = requests (snd (main en w))))"
proof (intro conjI allI impI)
  show "messages (main_conversation fileContent1 fileContent2 task) =
     [\<lparr>role = System,
       content = js ''You are a helpful assistant that compares two files and provides insights.''\<rparr>,
      \<lparr>role = User,
       content = js ''\<newline>I have two files.\<newline>\<newline>File 1 Content:\<newline>'' @ fileContent1
         @ js ''\<newline>\<newline>File 2 Content:\<newline>'' @ fileContent2
         @ js ''\<newline>\<newline>Task: ''
         @ (if task = [] then js ''Compare and analyze the differences.'' else task)
         @ js ''\<newline>''\<rparr>]"
    by (simp add: main_conversation_def)
next
  fix h
  assume d: "as_HistoryData (loadHistory en w) = Some h"
  have o: "q \<noteq> HISTORY_FILE en \<Longrightarrow> files_after_key en h w q = files w q" for q
    by (simp add: files_after_key_def)
  show "requests (snd (main en w)) = requests w
          \<or> (\<exists>f1 f2.
               (path_resolve en (answer_filePath1 en) \<noteq> HISTORY_FILE en
                  \<longrightarrow> files w (path_resolve en (answer_filePath1 en)) = Some f1)
               \<and> (path_resolve en (answer_filePath2 en) \<noteq> HISTORY_FILE en
                  \<longrightarrow> files w (path_resolve en (answer_filePath2 en)) = Some f2)
               \<and> requests (snd (main en w)) = requests w @
                   [\<lparr>req_messages = messages (main_conversation f1 f2 (answer_taskPrompt en)),
                     req_model = js ''gpt-4o-mini'', req_temperature = Some (7 / 10),
                     req_stream = True\<rparr>])"
  proof (cases "expected_requests en h w = []")
    case True
    with main_requests [OF d] show ?thesis by simp
  next
    case False
    then obtain f1 f2 where
      f: "files_after_key en h w (path_resolve en (answer_filePath1 en)) = Some f1"
        "files_after_key en h w (path_resolve en (answer_filePath2 en)) = Some f2"
        "expected_requests en h w = [sent_request en f1 f2]"
      by (auto simp: expected_requests_def split: option.splits if_splits)
    from f(1) o [of "path_resolve en (answer_filePath1 en)"]
    have 1: "path_resolve en (answer_filePath1 en) \<noteq> HISTORY_FILE en
        \<longrightarrow> files w (path_resolve en (answer_filePath1 en)) = Some f1"
      by simp
    from f(2) o [of "path_resolve en (answer_filePath2 en)"]
    have 2: "path_resolve en (answer_filePath2 en) \<noteq> HISTORY_FILE en
        \<longrightarrow> files w (path_resolve en (answer_filePath2 en)) = Some f2"
      by simp
    from main_requests [OF d] f(3)
    have "requests (snd (main en w)) = requests w @
        [\<lparr>req_messages = messages (main_conversation f1 f2 (answer_taskPrompt en)),
          req_model = js ''gpt-4o-mini'', req_temperature = Some (7 / 10), req_stream = True\<rparr>]"
      by (simp add: sent_request_def)
    with 1 2 show ?thesis by blast
  qed
next
  fix h a b
  assume d: "as_HistoryData (loadHistory en w) = Some h"
  show "requests (snd (main (en\<lparr>answer_selectedOrNew := a, answer_newSelectorText := b\<rparr>) w))
              = requests (snd (main en w))"
    by (rule main_requests_independent [OF d])
qed

lemma demo_requests:
  assumes "like_demo en"
  shows "requests (snd (main en demo_world)) = [sent_request en (js ''alpha'') (js ''beta'')]"
proof -
  let ?h = "\<lparr>openAiApiKey = None, rawTextsUsed = [], sessions = []\<rparr>"
  have k: "key_after en ?h = Some (js ''sk-test'')"
    using assms trim_demo_key by (simp add: key_after_def falsy_key_def like_demo_def demo_env_def)
  then have nk: "key_after en ?h \<noteq> Some []" by (simp add: js_def)
  have w: "writable en (HISTORY_FILE en)" using assms by (simp add: like_demo_def demo_paths)
  have f1: "files_after_key en ?h demo_world (path_resolve en (answer_filePath1 en)) = Some (js ''alpha'')"
    using assms demo_paths by (simp add: files_after_key_def like_demo_def)
  have f2: "files_after_key en ?h demo_world (path_resolve en (answer_filePath2 en)) = Some (js ''beta'')"
    using assms demo_paths by (simp add: files_after_key_def like_demo_def)
  have "expected_requests en ?h demo_world = [sent_request en (js ''alpha'') (js ''beta'')]"
    by (simp add: expected_requests_def nk w f1 f2)
  with main_requests [OF demo_decode [OF assms]] show ?thesis
    by (simp add: demo_world_def)
qed

text \<open>
  The selector text can nevertheless occur in a message, when a file contains it. In the
  run below the text entered at the selector prompt is \<open>alpha\<close>, which is also the text of
  the first file: the user message of the request sent contains it.
\<close>


theorem selector_text_in_message_counterexample:
  "answer_selectedOrNew alpha_env = js ''Enter new text''
   \<and> answer_newSelectorText alpha_env = js ''alpha''
   \<and> requests (snd (main alpha_env demo_world)) =
       [\<lparr>req_messages = messages (main_conversation (js ''alpha'') (js ''beta'') []),
         req_model = js ''gpt-4o-mini'', req_temperature = Some (7 / 10), req_stream = True\<rparr>]
   \<and> occurs_in (js ''alpha'')
        (content (last (messages (main_conversation (js ''alpha'') (js ''beta'') []))))"
proof -
  have l: "like_demo alpha_env" by (simp add: alpha_env_def)
  have t: "answer_taskPrompt alpha_env = []" by (simp add: alpha_env_def demo_env_def)
  have "content (last (messages (main_conversation (js ''alpha'') (js ''beta'') [])))
      = js ''\<newline>I have two files.\<newline>\<newline>File 1 Content:\<newline>'' @ js ''alpha''
        @ (js ''\<newline>\<newline>File 2 Content:\<newline>'' @ js ''beta'' @ js ''\<newline>\<newline>Task: ''
           @ js ''Compare and analyze the differences.'' @ js ''\<newline>'')"
    by (simp add: main_conversation_def)
  then have "occurs_in (js ''alpha'')
        (content (last (messages (main_conversation (js ''alpha'') (js ''beta'') []))))"
    unfolding occurs_in_iff by blast
  with demo_requests [OF l] show ?thesis
    by (simp add: sent_request_def t) (simp add: alpha_env_def demo_env_def)
qed

theorem conversation_from_files_and_task_witness:
  "as_HistoryData (loadHistory demo_env demo_world)
     = Some \<lparr>openAiApiKey = None, rawTextsUsed = [], sessions = []\<rparr>
   \<and> content (last (messages (main_conversation (js ''A'') (js ''B'') []))) =
       js ''\<newline>I have two files.\<newline>\<newline>File 1 Content:\<newline>A\<newline>\<newline>File 2 Content:\<newline>B\<newline>\<newline>Task: Compare and analyze the differences.\<newline>''
   \<and> requests (snd (main demo_env demo_world)) =
       [\<lparr>req_messages = messages (main_conversation (js ''alpha'') (js ''beta'') []),
         req_model = js ''gpt-4o-mini'', req_temperature = Some (7 / 10), req_stream = True\<rparr>]
   \<and> requests (snd (main (demo_env\<lparr>answer_selectedOrNew := js ''demo'',
                                    answer_newSelectorText := js ''other''\<rparr>) demo_world))
       = requests (snd (main demo_env demo_world))"
proof -
  have t: "answer_taskPrompt demo_env = []" by (simp add: demo_env_def)
  note c = conversation_from_files_and_task [of "js ''A''" "js ''B''" "[]" demo_env demo_world]
  have m: "content (last (messages (main_conversation (js ''A'') (js ''B'') []))) =
       js ''\<newline>I have two files.\<newline>\<newline>File 1 Content:\<newline>A\<newline>\<newline>File 2 Content:\<newline>B\<newline>\<newline>Task: Compare and analyze the differences.\<newline>''"
    using c by (simp add: js_def)
  from c demo_decode [of demo_env]
  have i: "requests (snd (main (demo_env\<lparr>answer_selectedOrNew := js ''demo'',
                                    answer_newSelectorText := js ''other''\<rparr>) demo_world))
       = requests (snd (main demo_env demo_world))"
    by simp
  from demo_requests [of demo_env] demo_decode [of demo_env] m i show ?thesis
    by (simp add: sent_request_def t)
qed

end
